theory Spec2Isabelle
  imports Main "HOL-Library.Sublist" "HOL-Library.AList"
begin

section \<open>sync.py: a Mendeley folder kept in step with a reMarkable folder\<close>

text \<open>
  The script lists the documents of the Mendeley folder \<open>Remarkable\<close>, names each one
  \<open><title without periods>---<id>\<close>, lists the files of the reMarkable folder
  \<open>Mendeley\<close>, and runs three passes: documents on both sides get the tablet's annotated
  export attached in Mendeley, documents only in Mendeley are uploaded to the tablet, files
  only on the tablet are downloaded to \<open>trash/\<close> and removed from the tablet.

  Python strings are modelled as \<open>string\<close> (lists of \<open>char\<close>), Python lists as lists, the
  insertion-ordered \<open>dict\<close> as an association list updated in place.
\<close>

subsection \<open>Strings\<close>

text \<open>\<open>old in s\<close> on strings: \<open>old\<close> occurs in \<open>s\<close> as a contiguous run.\<close>

fun str_contains :: "string \<Rightarrow> string \<Rightarrow> bool" where
  "str_contains old [] = (old = [])"
| "str_contains old (c # cs) = (prefix old (c # cs) \<or> str_contains old cs)"

text \<open>
  \<open>s.replace(old, new)\<close>: the occurrences of \<open>old\<close> are replaced from the left, without
  overlap. With the empty \<open>old\<close>, Python puts \<open>new\<close> before every character and at the end.
\<close>

primrec replace_empty :: "string \<Rightarrow> string \<Rightarrow> string" where
  "replace_empty new [] = new"
| "replace_empty new (c # cs) = new @ c # replace_empty new cs"

function str_replace :: "string \<Rightarrow> string \<Rightarrow> string \<Rightarrow> string" where
  "str_replace old new s =
     (if old = [] then replace_empty new s
      else if s = [] then []
      else if prefix old s then new @ str_replace old new (drop (length old) s)
      else hd s # str_replace old new (tl s))"
  by pat_completeness auto
termination
  by (relation "measure (\<lambda>(old, new, s). length s)") auto

declare str_replace.simps [simp del]

text \<open>\<open>sep.join(xs)\<close>.\<close>

fun str_join :: "string \<Rightarrow> string list \<Rightarrow> string" where
  "str_join sep [] = []"
| "str_join sep [x] = x"
| "str_join sep (x # y # ys) = x @ sep @ str_join sep (y # ys)"

text \<open>
  \<open>s.split(sep)\<close> for a separator of one character: the pieces between the separators,
  never an empty list.
\<close>

fun str_split :: "char \<Rightarrow> string \<Rightarrow> string list" where
  "str_split sep [] = [[]]"
| "str_split sep (c # cs) =
     (if c = sep then [] # str_split sep cs
      else (case str_split sep cs of
              [] \<Rightarrow> [[c]]
            | p # ps \<Rightarrow> (c # p) # ps))"

subsection \<open>The identity codec\<close>

text \<open>
  \<^verbatim>\<open>
  def to_filename(text, nospaces=False):
      text = text.replace(".", "")
      return text
  \<close>
\<close>

definition to_filename :: "string \<Rightarrow> bool \<Rightarrow> string" where
  "to_filename text nospaces = str_replace ''.'' '''' text"

text \<open>
  The key of a document, \<^verbatim>\<open>"{}---{}".format(to_filename(m.title), m.id)\<close> in \<open>main\<close>; the
  call leaves \<open>nospaces\<close> at its default.
\<close>

definition canonicalize :: "string \<Rightarrow> string \<Rightarrow> string" where
  "canonicalize title ident = to_filename title False @ ''---'' @ ident"

record document =
  doc_id :: string
  title :: string

definition doc_key :: "document \<Rightarrow> string" where
  "doc_key m = canonicalize (title m) (doc_id m)"

subsection \<open>The key mapping and the three-way diff\<close>

text \<open>
  \<^verbatim>\<open>
  mfiles = {"{}---{}".format(to_filename(m.title), m.id) : idx
              for idx, m in enumerate(mdocuments)}
  \<close>
  A dict comprehension stores the pairs in order; storing under a key that is present
  replaces the value and keeps the key's place (\<open>AList.update\<close>).
\<close>

definition mfiles_of :: "document list \<Rightarrow> (string \<times> nat) list" where
  "mfiles_of mdocuments =
     fold (\<lambda>(idx, m) d. AList.update (doc_key m) idx d) (enumerate 0 mdocuments) []"

text \<open>
  \<^verbatim>\<open>
  m_and_r = [f for f in mfiles.keys() if f in rfiles]
  m_minus_r = [f for f in mfiles.keys() if f not in rfiles]
  r_minus_m = [f for f in rfiles if f not in mfiles.keys()]
  \<close>
\<close>

definition m_and_r_of :: "(string \<times> nat) list \<Rightarrow> string list \<Rightarrow> string list" where
  "m_and_r_of mfiles rfiles = filter (\<lambda>f. f \<in> set rfiles) (map fst mfiles)"

definition m_minus_r_of :: "(string \<times> nat) list \<Rightarrow> string list \<Rightarrow> string list" where
  "m_minus_r_of mfiles rfiles = filter (\<lambda>f. f \<notin> set rfiles) (map fst mfiles)"

definition r_minus_m_of :: "(string \<times> nat) list \<Rightarrow> string list \<Rightarrow> string list" where
  "r_minus_m_of mfiles rfiles = filter (\<lambda>f. f \<notin> set (map fst mfiles)) rfiles"

subsection \<open>The outside world\<close>

text \<open>
  Everything \<open>main\<close> does beyond computing is a call to the outside: the Mendeley session
  (HTTP), the \<open>rmapi\<close> process, the file system, \<open>uuid4\<close>, \<open>print\<close>. Each call is a
  constructor of \<open>call\<close>. The state of a run is its log, the calls made so far in order,
  each with a flag: \<open>True\<close> when the call returned normally (for \<open>Popen\<close>: the process
  could be started and exited with status 0; for \<open>PathExists\<close>: the path exists).

  What a call answers is not decided by the script. The record \<open>env\<close> holds one oracle
  per kind of call, indexed by the position of the call in the run (the length of the log)
  and by the call's arguments: the answers of any outside world along one run are such an
  oracle, so a statement for every \<open>env\<close> is a statement for every behaviour of Mendeley,
  the tablet and the file system.

  An exception is the value \<open>Inl\<close> of its message \<open>str(ex)\<close>; every exception of the model
  is an \<open>Exception\<close>, which \<open>except Exception\<close> catches.
\<close>

type_synonym exn = string

text \<open>
  A file attached to a Mendeley document: its id, and what \<open>print(file_)\<close> shows.
\<close>

record mfile =
  file_id :: string
  file_repr :: string

text \<open>
  A response of \<open>session.request\<close>: \<open>json.loads(rsp.content)\<close>, a list of objects with
  string fields, or the exception it raises; and \<open>rsp.links["next"]["url"]\<close> when
  \<open>"next" in rsp.links\<close>.
\<close>

record response =
  content :: "exn + (string \<times> string) list list"
  next_url :: "string option"

text \<open>
  \<^verbatim>\<open>
  class Folder:
      def __init__(self, id, name, parent_id):
          self.id = id
          self.name = name
          self.parent = parent_id
  \<close>
\<close>

record folder =
  folder_id :: string
  folder_name :: string
  parent :: "string option"

text \<open>
  The calls, with the statement of the script each one stands for:
  \<^item> \<open>GetSession\<close>: \<open>get_session()\<close>;
  \<^item> \<open>HttpGet uri\<close>: \<open>session.request("GET", uri)\<close>;
  \<^item> \<open>DocumentsGet id\<close>: \<open>session.documents.get(id)\<close>;
  \<^item> \<open>Popen args\<close>: \<open>subprocess.Popen(args, ...)\<close>, \<open>wait()\<close> and the two \<open>read()\<close>;
  \<^item> \<open>PathExists p\<close>: \<open>os.path.exists(p)\<close>;
  \<^item> \<open>ShutilMove src dst\<close>: \<open>shutil.move(src, dst)\<close>;
  \<^item> \<open>OsRemove p\<close>: \<open>os.remove(p)\<close>; \<open>OsMakedirs p\<close>: \<open>os.makedirs(p)\<close>;
  \<^item> \<open>Uuid4\<close>: \<open>uuid.uuid4().hex\<close>;
  \<^item> \<open>FilesIter id\<close>: \<open>mdoc.files.iter()\<close> on the document \<open>id\<close>;
  \<^item> \<open>FileDelete f\<close>: \<open>file_.delete()\<close> on the file \<open>f\<close>;
  \<^item> \<open>AttachFile id p\<close>: \<open>mdoc.attach_file(p)\<close> on the document \<open>id\<close>;
  \<^item> \<open>FileDownload f dir\<close>: \<open>file_.download(dir)\<close> on the file \<open>f\<close>;
  \<^item> \<open>Print s\<close>: \<open>print(s)\<close>.
  \<open>print\<close>, \<open>os.path.exists\<close>, \<open>uuid4\<close> and the start of an iteration raise nothing.
\<close>

datatype call =
    GetSession
  | HttpGet string
  | DocumentsGet string
  | Popen "string list"
  | PathExists string
  | ShutilMove string string
  | OsRemove string
  | OsMakedirs string
  | Uuid4
  | FilesIter string
  | FileDelete string
  | AttachFile string string
  | FileDownload string string
  | Print string

type_synonym world = "(call \<times> bool) list"

text \<open>
  \<open>files_iter\<close> answers \<open>mdoc.files.iter()\<close> with the files the iterator yields and the
  exception it raises after them, if any: the iteration over the attachments of one
  document is taken to be finite. \<open>repr_args\<close> and \<open>repr_bytes\<close> are Python's \<open>repr\<close> of the
  argument tuple and of the bytes of \<open>stderr\<close>, as \<open>str.format\<close> prints them;
  \<open>decode_utf8\<close> is \<open>bytes.decode('utf-8')\<close>. The output of a process is modelled as the
  string of its bytes.
\<close>

record env =
  session_r :: "nat \<Rightarrow> exn option"
  http_get :: "nat \<Rightarrow> string \<Rightarrow> exn + response"
  documents_get :: "nat \<Rightarrow> string \<Rightarrow> exn + document"
  popen :: "nat \<Rightarrow> string list \<Rightarrow> exn + (int \<times> string \<times> string)"
  path_exists :: "nat \<Rightarrow> string \<Rightarrow> bool"
  shutil_move :: "nat \<Rightarrow> string \<Rightarrow> string \<Rightarrow> exn option"
  os_remove :: "nat \<Rightarrow> string \<Rightarrow> exn option"
  os_makedirs :: "nat \<Rightarrow> string \<Rightarrow> exn option"
  uuid4_hex :: "nat \<Rightarrow> string"
  files_iter :: "nat \<Rightarrow> string \<Rightarrow> mfile list \<times> exn option"
  file_delete :: "nat \<Rightarrow> string \<Rightarrow> exn option"
  attach_file :: "nat \<Rightarrow> string \<Rightarrow> string \<Rightarrow> exn option"
  file_download :: "nat \<Rightarrow> string \<Rightarrow> string \<Rightarrow> exn + string"
  repr_args :: "string list \<Rightarrow> string"
  repr_bytes :: "string \<Rightarrow> string"
  decode_utf8 :: "string \<Rightarrow> exn + string"

text \<open>
  A computation takes the log and returns a value or an exception, and the log extended by
  the calls it made. \<open>io_bind\<close> is the sequence of two statements: an exception of the first
  skips the second.
\<close>

type_synonym 'a io = "world \<Rightarrow> (exn + 'a) \<times> world"

definition io_return :: "'a \<Rightarrow> 'a io" where
  "io_return a w = (Inr a, w)"

definition io_raise :: "exn \<Rightarrow> 'a io" where
  "io_raise e w = (Inl e, w)"

definition io_bind :: "'a io \<Rightarrow> ('a \<Rightarrow> 'b io) \<Rightarrow> 'b io" where
  "io_bind m f w = (case m w of (Inl e, w') \<Rightarrow> (Inl e, w') | (Inr a, w') \<Rightarrow> f a w')"

definition io_lift :: "exn + 'a \<Rightarrow> 'a io" where
  "io_lift r w = (r, w)"

definition effect :: "call \<Rightarrow> exn option \<Rightarrow> unit io" where
  "effect c r w = (case r of None \<Rightarrow> (Inr (), w @ [(c, True)]) | Some e \<Rightarrow> (Inl e, w @ [(c, False)]))"

definition query :: "call \<Rightarrow> exn + 'a \<Rightarrow> 'a io" where
  "query c r w = (case r of Inr a \<Rightarrow> (Inr a, w @ [(c, True)]) | Inl e \<Rightarrow> (Inl e, w @ [(c, False)]))"

definition print :: "string \<Rightarrow> unit io" where
  "print s w = (Inr (), w @ [(Print s, True)])"

definition os_path_exists :: "env \<Rightarrow> string \<Rightarrow> bool io" where
  "os_path_exists E p w = (Inr (path_exists E (length w) p), w @ [(PathExists p, path_exists E (length w) p)])"

definition move :: "env \<Rightarrow> string \<Rightarrow> string \<Rightarrow> unit io" where
  "move E src dst w = effect (ShutilMove src dst) (shutil_move E (length w) src dst) w"

definition remove_file :: "env \<Rightarrow> string \<Rightarrow> unit io" where
  "remove_file E p w = effect (OsRemove p) (os_remove E (length w) p) w"

definition makedirs :: "env \<Rightarrow> string \<Rightarrow> unit io" where
  "makedirs E p w = effect (OsMakedirs p) (os_makedirs E (length w) p) w"

definition uuid4 :: "env \<Rightarrow> string io" where
  "uuid4 E w = (Inr (uuid4_hex E (length w)), w @ [(Uuid4, True)])"

definition request :: "env \<Rightarrow> string \<Rightarrow> response io" where
  "request E uri w = query (HttpGet uri) (http_get E (length w) uri) w"

subsection \<open>Folders and documents in Mendeley\<close>

text \<open>
  \<open>map_exn f xs\<close> is the loop \<open>for x in xs: ys.append(f(x))\<close>: the first exception ends
  it. \<open>json_get f k\<close> is \<open>f[k]\<close> on an object, a \<open>KeyError\<close> when the key is absent.
\<close>

fun map_exn :: "('a \<Rightarrow> exn + 'b) \<Rightarrow> 'a list \<Rightarrow> exn + 'b list" where
  "map_exn f [] = Inr []"
| "map_exn f (x # xs) =
     (case f x of
        Inl e \<Rightarrow> Inl e
      | Inr y \<Rightarrow> (case map_exn f xs of Inl e \<Rightarrow> Inl e | Inr ys \<Rightarrow> Inr (y # ys)))"

definition json_get :: "(string \<times> string) list \<Rightarrow> string \<Rightarrow> exn + string" where
  "json_get f k = (case map_of f k of None \<Rightarrow> Inl ([CHR 0x27] @ k @ [CHR 0x27]) | Some v \<Rightarrow> Inr v)"

text \<open>
  The two listings of class \<open>Folder\<close> share one loop over the pages of a result:
  \<^verbatim>\<open>
  rsp = session.request("GET", uri)
  while True:
      for f in json.loads(rsp.content):
          folders.append(...)          # document_ids.append(f["id"])
      if "next" not in rsp.links:
          break
      rsp = session.request("GET", rsp.links["next"]["url"])
  \<close>
  The loop runs for as long as the server sends a \<open>next\<close> link, so it is a partial function:
  \<open>None\<close> is a run that never leaves the loop.
\<close>

partial_function (option) page_loop ::
  "env \<Rightarrow> ((string \<times> string) list \<Rightarrow> exn + 'a) \<Rightarrow> response \<Rightarrow> 'a list \<Rightarrow> world
     \<Rightarrow> ((exn + 'a list) \<times> world) option" where
  "page_loop E item rsp acc w =
     (case content rsp of
        Inl e \<Rightarrow> Some (Inl e, w)
      | Inr fs \<Rightarrow>
          (case map_exn item fs of
             Inl e \<Rightarrow> Some (Inl e, w)
           | Inr xs \<Rightarrow>
               (case next_url rsp of
                  None \<Rightarrow> Some (Inr (acc @ xs), w)
                | Some url \<Rightarrow>
                    (case request E url w of
                       (Inl e, w') \<Rightarrow> Some (Inl e, w')
                     | (Inr rsp', w') \<Rightarrow> page_loop E item rsp' (acc @ xs) w'))))"

text \<open>
  \<^verbatim>\<open>
  parent_id = f["parent_id"] if "parent_id" in f else None
  folders.append(Folder(f["id"], f["name"], parent_id))
  \<close>
\<close>

definition folder_of_json :: "(string \<times> string) list \<Rightarrow> exn + folder" where
  "folder_of_json f =
     (case json_get f ''id'' of
        Inl e \<Rightarrow> Inl e
      | Inr i \<Rightarrow>
          (case json_get f ''name'' of
             Inl e \<Rightarrow> Inl e
           | Inr n \<Rightarrow> Inr \<lparr>folder_id = i, folder_name = n, parent = map_of f ''parent_id''\<rparr>))"

definition get_folders :: "env \<Rightarrow> world \<Rightarrow> ((exn + folder list) \<times> world) option" where
  "get_folders E w =
     (case request E ''https://api.mendeley.com/folders?limit=500'' w of
        (Inl e, w') \<Rightarrow> Some (Inl e, w')
      | (Inr rsp, w') \<Rightarrow> page_loop E folder_of_json rsp [] w')"

text \<open>
  \<^verbatim>\<open>documents = [session.documents.get(id) for id in document_ids]\<close>
\<close>

definition session_documents_get :: "env \<Rightarrow> string \<Rightarrow> document io" where
  "session_documents_get E i w = query (DocumentsGet i) (documents_get E (length w) i) w"

fun get_all :: "env \<Rightarrow> string list \<Rightarrow> document list io" where
  "get_all E [] = io_return []"
| "get_all E (i # is) =
     io_bind (session_documents_get E i) (\<lambda>d.
     io_bind (get_all E is) (\<lambda>ds. io_return (d # ds)))"

definition documents :: "env \<Rightarrow> folder \<Rightarrow> world \<Rightarrow> ((exn + document list) \<times> world) option" where
  "documents E self w =
     (case request E (''https://api.mendeley.com/folders/'' @ folder_id self
                        @ ''/documents?limit=500'') w of
        (Inl e, w') \<Rightarrow> Some (Inl e, w')
      | (Inr rsp, w') \<Rightarrow>
          (case page_loop E (\<lambda>f. json_get f ''id'') rsp [] w' of
             None \<Rightarrow> None
           | Some (Inl e, w'') \<Rightarrow> Some (Inl e, w'')
           | Some (Inr document_ids, w'') \<Rightarrow> Some (get_all E document_ids w'')))"

text \<open>
  \<open>get_session\<close> builds the session from the stored token; it raises when there is no
  token or the token cannot be decoded.
\<close>

definition get_session :: "env \<Rightarrow> unit io" where
  "get_session E w = effect GetSession (session_r E (length w)) w"

subsection \<open>RmApi\<close>

text \<open>
  \<^verbatim>\<open>
  def _run(self, *args):
      args = (self.path, *args)
      popen = subprocess.Popen(args, stdout=subprocess.PIPE, stderr=subprocess.PIPE)
      ret = popen.wait()
      output = popen.stdout.read()
      error = popen.stderr.read()
      if ret != 0:
          raise Exception("RmAPI {} command failed: {}".format(args, error))
      return output
  \<close>
\<close>

definition run :: "env \<Rightarrow> string \<Rightarrow> string list \<Rightarrow> string io" where
  "run E path args w =
     (case popen E (length w) (path # args) of
        Inl e \<Rightarrow> (Inl e, w @ [(Popen (path # args), False)])
      | Inr (ret, output, error) \<Rightarrow>
          if ret \<noteq> 0
          then (Inl (''RmAPI '' @ repr_args E (path # args) @ '' command failed: ''
                       @ repr_bytes E error),
                w @ [(Popen (path # args), False)])
          else (Inr output, w @ [(Popen (path # args), True)]))"

text \<open>
  \<open>not parent\<close> holds for \<open>None\<close> and for the empty string.
  \<^verbatim>\<open>
  def subfolders(self, parent=None):
      out = self._run("ls") if not parent else self._run("ls", parent)
      entries = out.decode('utf-8').split("\n")
      entries = [e.split("\t") for e in entries]
      return [e[1] for e in entries if e[0] == "[d]"]
  \<close>
  \<open>files\<close> is the same with \<open>"[f]"\<close>. A line that is the tag alone has no \<open>e[1]\<close>: an
  \<open>IndexError\<close>.
\<close>

definition falsy :: "string option \<Rightarrow> bool" where
  "falsy p = (p = None \<or> p = Some [])"

fun pick_entries :: "string \<Rightarrow> string list list \<Rightarrow> exn + string list" where
  "pick_entries tag [] = Inr []"
| "pick_entries tag (e # es) =
     (case e of
        [] \<Rightarrow> Inl ''list index out of range''
      | x # r \<Rightarrow>
          if x = tag
          then (case r of
                  [] \<Rightarrow> Inl ''list index out of range''
                | y # _ \<Rightarrow>
                    (case pick_entries tag es of Inl ex \<Rightarrow> Inl ex | Inr ys \<Rightarrow> Inr (y # ys)))
          else pick_entries tag es)"

definition ls_entries :: "env \<Rightarrow> string \<Rightarrow> string option \<Rightarrow> string \<Rightarrow> string list io" where
  "ls_entries E path par tag =
     io_bind (if falsy par then run E path [''ls''] else run E path [''ls'', the par]) (\<lambda>out.
     io_bind (io_lift (decode_utf8 E out)) (\<lambda>txt.
     io_lift (pick_entries tag (map (str_split (CHR 0x09)) (str_split (CHR 0x0A) txt)))))"

definition subfolders :: "env \<Rightarrow> string \<Rightarrow> string option \<Rightarrow> string list io" where
  "subfolders E path par = ls_entries E path par ''[d]''"

definition files :: "env \<Rightarrow> string \<Rightarrow> string option \<Rightarrow> string list io" where
  "files E path par = ls_entries E path par ''[f]''"

text \<open>
  \<^verbatim>\<open>
  def download(self, rfolder, rfile, outpath):
      rpath="{}/{}".format(rfolder, rfile)
      out = self._run("geta", "-a", rpath)
      localpath = "{}-annotations.pdf".format(rfile)
      if not os.path.exists(localpath):
          raise Exception("File not downloaded from remarkable cloud: {}".format(rpath))
      shutil.move(localpath, outpath)
      os.remove("{}.zip".format(rfile))

  def upload(self, inpath, rfolder):
      self._run("put", inpath, rfolder)

  def remove(self, rfolder, rfile):
      rpath="{}/{}".format(rfolder, rfile)
      self._run("rm", rpath)
  \<close>
\<close>

definition download :: "env \<Rightarrow> string \<Rightarrow> string \<Rightarrow> string \<Rightarrow> string \<Rightarrow> unit io" where
  "download E path rfolder rfile outpath =
     io_bind (run E path [''geta'', ''-a'', rfolder @ ''/'' @ rfile]) (\<lambda>out.
     io_bind (os_path_exists E (rfile @ ''-annotations.pdf'')) (\<lambda>ex.
       if \<not> ex
       then io_raise (''File not downloaded from remarkable cloud: '' @ rfolder @ ''/'' @ rfile)
       else io_bind (move E (rfile @ ''-annotations.pdf'') outpath) (\<lambda>_.
            remove_file E (rfile @ ''.zip''))))"

definition upload :: "env \<Rightarrow> string \<Rightarrow> string \<Rightarrow> string \<Rightarrow> unit io" where
  "upload E path inpath rfolder =
     io_bind (run E path [''put'', inpath, rfolder]) (\<lambda>_. io_return ())"

definition remove :: "env \<Rightarrow> string \<Rightarrow> string \<Rightarrow> string \<Rightarrow> unit io" where
  "remove E path rfolder rfile =
     io_bind (run E path [''rm'', rfolder @ ''/'' @ rfile]) (\<lambda>_. io_return ())"

subsection \<open>main\<close>

text \<open>
  \<open>rmapi\<close> is the path of \<open>RmApi()\<close>, the default \<open>exec_path\<close>.
\<close>

definition REMARKABLE_FOLDER_IN_MENDELEY :: string where
  "REMARKABLE_FOLDER_IN_MENDELEY = ''Remarkable''"

definition MENDELEY_FOLDER_IN_REMARKABLE :: string where
  "MENDELEY_FOLDER_IN_REMARKABLE = ''Mendeley''"

definition rmapi :: string where
  "rmapi = ''./rmapi''"

text \<open>
  \<open>mdoc = mdocuments[mfiles[doc]]\<close>: a \<open>KeyError\<close> for a key that \<open>mfiles\<close> lacks, an
  \<open>IndexError\<close> for an index past the end of the list.
\<close>

definition mdoc_of :: "document list \<Rightarrow> (string \<times> nat) list \<Rightarrow> string \<Rightarrow> document io" where
  "mdoc_of mdocuments mfiles doc =
     (case map_of mfiles doc of
        None \<Rightarrow> io_raise ([CHR 0x27] @ doc @ [CHR 0x27])
      | Some i \<Rightarrow>
          if i < length mdocuments then io_return (mdocuments ! i)
          else io_raise ''list index out of range'')"

definition files_iter_start :: "env \<Rightarrow> document \<Rightarrow> (mfile list \<times> exn option) io" where
  "files_iter_start E mdoc w =
     (Inr (files_iter E (length w) (doc_id mdoc)), w @ [(FilesIter (doc_id mdoc), True)])"

definition delete_file :: "env \<Rightarrow> mfile \<Rightarrow> unit io" where
  "delete_file E f w = effect (FileDelete (file_id f)) (file_delete E (length w) (file_id f)) w"

fun delete_each :: "env \<Rightarrow> mfile list \<Rightarrow> unit io" where
  "delete_each E [] = io_return ()"
| "delete_each E (f # fs) = io_bind (delete_file E f) (\<lambda>_. delete_each E fs)"

definition mdoc_attach_file :: "env \<Rightarrow> document \<Rightarrow> string \<Rightarrow> unit io" where
  "mdoc_attach_file E mdoc p w =
     effect (AttachFile (doc_id mdoc) p) (attach_file E (length w) (doc_id mdoc) p) w"

definition download_file :: "env \<Rightarrow> mfile \<Rightarrow> string \<Rightarrow> string io" where
  "download_file E f dir w =
     query (FileDownload (file_id f) dir) (file_download E (length w) (file_id f) dir) w"

text \<open>
  The body of the loop over \<open>m_and_r\<close>, and the loop:
  \<^verbatim>\<open>
  for doc in m_and_r:
      mdoc = mdocuments[mfiles[doc]]
      try:
          localpath = "{}.pdf".format(uuid.uuid4().hex)
          rmapi.download(MENDELEY_FOLDER_IN_REMARKABLE, doc, localpath)
      except Exception as ex:
          if "Failed to generate annotations" in str(ex):
              print("Document skipped: {}. No annotations yet!".format(doc))
              continue
          raise
      for file_ in mdoc.files.iter():
          file_.delete()
      mdoc.attach_file(localpath)
      os.remove(localpath)
      print("Document synced: {}".format(doc))
  \<close>
\<close>

definition no_annotations :: "exn \<Rightarrow> bool" where
  "no_annotations ex = str_contains ''Failed to generate annotations'' ex"

definition both_body :: "env \<Rightarrow> document list \<Rightarrow> (string \<times> nat) list \<Rightarrow> string \<Rightarrow> unit io" where
  "both_body E mdocuments mfiles doc =
     io_bind (mdoc_of mdocuments mfiles doc) (\<lambda>mdoc.
     io_bind (uuid4 E) (\<lambda>hex. (\<lambda>w.
       (case download E rmapi MENDELEY_FOLDER_IN_REMARKABLE doc (hex @ ''.pdf'') w of
          (Inl ex, w') \<Rightarrow>
            if no_annotations ex
            then print (''Document skipped: '' @ doc @ ''. No annotations yet!'') w'
            else (Inl ex, w')
        | (Inr _, w') \<Rightarrow>
            io_bind (files_iter_start E mdoc) (\<lambda>(fs, stop).
            io_bind (delete_each E fs) (\<lambda>_.
            io_bind (case stop of None \<Rightarrow> io_return () | Some e \<Rightarrow> io_raise e) (\<lambda>_.
            io_bind (mdoc_attach_file E mdoc (hex @ ''.pdf'')) (\<lambda>_.
            io_bind (remove_file E (hex @ ''.pdf'')) (\<lambda>_.
            print (''Document synced: '' @ doc)))))) w'))))"

fun for_m_and_r :: "env \<Rightarrow> document list \<Rightarrow> (string \<times> nat) list \<Rightarrow> string list \<Rightarrow> unit io" where
  "for_m_and_r E mdocuments mfiles [] = io_return ()"
| "for_m_and_r E mdocuments mfiles (doc # docs) =
     io_bind (both_body E mdocuments mfiles doc) (\<lambda>_. for_m_and_r E mdocuments mfiles docs)"

text \<open>
  The body of the loop over \<open>m_minus_r\<close>, and the loop. The \<open>break\<close> leaves the iterator
  after its first file, so an exception the iterator would raise later is never met.
  \<^verbatim>\<open>
  for doc in m_minus_r:
      mdoc = mdocuments[mfiles[doc]]
      path = None
      for file_ in mdoc.files.iter():
          print(file_)
          path = file_.download(".")
          break
      if not path:
          print("WARNING! no files attached for document: {}".format(mdoc.title))
          continue
      properpath = "{}.pdf".format(doc)
      shutil.move(path, properpath)
      rmapi.upload(properpath, MENDELEY_FOLDER_IN_REMARKABLE)
      os.remove(properpath)
      print("Document added: {}".format(doc))
  \<close>
\<close>

definition first_file_path :: "env \<Rightarrow> document \<Rightarrow> string option io" where
  "first_file_path E mdoc =
     io_bind (files_iter_start E mdoc) (\<lambda>(fs, stop).
       case fs of
         [] \<Rightarrow> (case stop of None \<Rightarrow> io_return None | Some e \<Rightarrow> io_raise e)
       | f # _ \<Rightarrow>
           io_bind (print (file_repr f)) (\<lambda>_.
           io_bind (download_file E f ''.'') (\<lambda>p. io_return (Some p))))"

definition m_minus_r_body :: "env \<Rightarrow> document list \<Rightarrow> (string \<times> nat) list \<Rightarrow> string \<Rightarrow> unit io" where
  "m_minus_r_body E mdocuments mfiles doc =
     io_bind (mdoc_of mdocuments mfiles doc) (\<lambda>mdoc.
     io_bind (first_file_path E mdoc) (\<lambda>path.
       if falsy path
       then print (''WARNING! no files attached for document: '' @ title mdoc)
       else io_bind (move E (the path) (doc @ ''.pdf'')) (\<lambda>_.
            io_bind (upload E rmapi (doc @ ''.pdf'') MENDELEY_FOLDER_IN_REMARKABLE) (\<lambda>_.
            io_bind (remove_file E (doc @ ''.pdf'')) (\<lambda>_.
            print (''Document added: '' @ doc))))))"

fun for_m_minus_r :: "env \<Rightarrow> document list \<Rightarrow> (string \<times> nat) list \<Rightarrow> string list \<Rightarrow> unit io" where
  "for_m_minus_r E mdocuments mfiles [] = io_return ()"
| "for_m_minus_r E mdocuments mfiles (doc # docs) =
     io_bind (m_minus_r_body E mdocuments mfiles doc) (\<lambda>_. for_m_minus_r E mdocuments mfiles docs)"

text \<open>
  The body of the loop over \<open>r_minus_m\<close>, and the loop:
  \<^verbatim>\<open>
  for doc in r_minus_m:
      localpath = "{}.pdf".format(doc)
      trashpath = "{}/{}".format(trash, localpath)
      rmapi.download(MENDELEY_FOLDER_IN_REMARKABLE, doc, localpath)
      shutil.move(localpath, trashpath)
      rmapi.remove(MENDELEY_FOLDER_IN_REMARKABLE, doc)
      print("Document removed: {}".format(doc))
  \<close>
\<close>

definition r_minus_m_body :: "env \<Rightarrow> string \<Rightarrow> string \<Rightarrow> unit io" where
  "r_minus_m_body E trash doc =
     io_bind (download E rmapi MENDELEY_FOLDER_IN_REMARKABLE doc (doc @ ''.pdf'')) (\<lambda>_.
     io_bind (move E (doc @ ''.pdf'') (trash @ ''/'' @ doc @ ''.pdf'')) (\<lambda>_.
     io_bind (remove E rmapi MENDELEY_FOLDER_IN_REMARKABLE doc) (\<lambda>_.
     print (''Document removed: '' @ doc))))"

fun for_r_minus_m :: "env \<Rightarrow> string \<Rightarrow> string list \<Rightarrow> unit io" where
  "for_r_minus_m E trash [] = io_return ()"
| "for_r_minus_m E trash (doc # docs) =
     io_bind (r_minus_m_body E trash doc) (\<lambda>_. for_r_minus_m E trash docs)"

text \<open>
  \<open>main\<close>, in three parts: \<open>main_passes\<close> is \<open>main\<close> from the diff on (the three loops, with
  \<open>trash = "trash"\<close> made when absent), \<open>main_tablet\<close> is \<open>main\<close> from \<open>rmapi = RmApi()\<close> on,
  \<open>main\<close> starts with the empty log.
  \<^verbatim>\<open>
  session = get_session()
  folders = Folder.get_folders(session)
  mfolder = next(filter(lambda f: f.name == REMARKABLE_FOLDER_IN_MENDELEY, folders), None)
  if not mfolder:
      print("Cannot find '{}' folder in mendeley. \nHere's the flattened list of folders: {}",
          REMARKABLE_FOLDER_IN_MENDELEY, ", ".join([f.name for f in folders]))
      raise Exception("Cannot find remarkable folder in mendeley!")
  mdocuments = mfolder.documents(session)
  mfiles = {...}
  rmapi = RmApi()
  topfolders = rmapi.subfolders()
  if MENDELEY_FOLDER_IN_REMARKABLE not in topfolders:
      print("Cannot find '{}' root-level folder in remarkable.".format(...))
      print("Create it if it does not exist, I won't.\nCurrent top-level folders: ",
            ", ".join(topfolders))
      raise Exception("Cannot find mendeley folder in remarkable!")
  rfiles = rmapi.files(MENDELEY_FOLDER_IN_REMARKABLE)
  \<close>
  \<open>print\<close> with several arguments joins them with one space. \<open>CHR 0x27\<close> is the
  apostrophe, \<open>CHR 0x0A\<close> the newline, \<open>CHR 0x09\<close> the tab.
\<close>

definition main_passes :: "env \<Rightarrow> document list \<Rightarrow> string list \<Rightarrow> unit io" where
  "main_passes E mdocuments rfiles =
     io_bind (for_m_and_r E mdocuments (mfiles_of mdocuments)
                (m_and_r_of (mfiles_of mdocuments) rfiles)) (\<lambda>_.
     io_bind (for_m_minus_r E mdocuments (mfiles_of mdocuments)
                (m_minus_r_of (mfiles_of mdocuments) rfiles)) (\<lambda>_.
     io_bind (os_path_exists E ''trash'') (\<lambda>ex.
     io_bind (if \<not> ex then makedirs E ''trash'' else io_return ()) (\<lambda>_.
     io_bind (for_r_minus_m E ''trash'' (r_minus_m_of (mfiles_of mdocuments) rfiles)) (\<lambda>_.
     print ''Sync complete! Refresh your mendeley and remarkable apps.'')))))"

definition main_tablet :: "env \<Rightarrow> document list \<Rightarrow> unit io" where
  "main_tablet E mdocuments =
     io_bind (subfolders E rmapi None) (\<lambda>topfolders.
       if MENDELEY_FOLDER_IN_REMARKABLE \<notin> set topfolders
       then io_bind (print (''Cannot find '' @ [CHR 0x27] @ MENDELEY_FOLDER_IN_REMARKABLE
                              @ [CHR 0x27] @ '' root-level folder in remarkable.'')) (\<lambda>_.
            io_bind (print (''Create it if it does not exist, I won'' @ [CHR 0x27] @ ''t.''
                              @ [CHR 0x0A] @ ''Current top-level folders:  ''
                              @ str_join '', '' topfolders)) (\<lambda>_.
            io_raise ''Cannot find mendeley folder in remarkable!''))
       else io_bind (files E rmapi (Some MENDELEY_FOLDER_IN_REMARKABLE)) (\<lambda>rfiles.
            main_passes E mdocuments rfiles))"

definition main :: "env \<Rightarrow> ((exn + unit) \<times> world) option" where
  "main E =
     (case get_session E [] of
        (Inl e, w) \<Rightarrow> Some (Inl e, w)
      | (Inr _, w) \<Rightarrow>
          (case get_folders E w of
             None \<Rightarrow> None
           | Some (Inl e, w1) \<Rightarrow> Some (Inl e, w1)
           | Some (Inr folders, w1) \<Rightarrow>
               (case find (\<lambda>f. folder_name f = REMARKABLE_FOLDER_IN_MENDELEY) folders of
                  None \<Rightarrow>
                    Some (io_bind
                      (print (''Cannot find '' @ [CHR 0x27] @ ''{}'' @ [CHR 0x27]
                         @ '' folder in mendeley. '' @ [CHR 0x0A]
                         @ ''Here'' @ [CHR 0x27] @ ''s the flattened list of folders: {} ''
                         @ REMARKABLE_FOLDER_IN_MENDELEY @ '' ''
                         @ str_join '', '' (map folder_name folders)))
                      (\<lambda>_. io_raise ''Cannot find remarkable folder in mendeley!'') w1)
                | Some mfolder \<Rightarrow>
                    (case documents E mfolder w1 of
                       None \<Rightarrow> None
                     | Some (Inl e, w2) \<Rightarrow> Some (Inl e, w2)
                     | Some (Inr mdocuments, w2) \<Rightarrow> Some (main_tablet E mdocuments w2)))))"

declare page_loop.simps [code]

subsection \<open>Words for traces\<close>

text \<open>
  The calls of a download that went well, and of a backup that went well: the download
  of the export to \<open><doc>.pdf\<close> followed by its move into the trash directory.
\<close>

definition geta_call :: "string \<Rightarrow> string \<Rightarrow> call" where
  "geta_call rfolder rfile = Popen [rmapi, ''geta'', ''-a'', rfolder @ ''/'' @ rfile]"

definition dl_ok :: "string \<Rightarrow> string \<Rightarrow> string \<Rightarrow> world" where
  "dl_ok rfolder rfile outpath =
     [(geta_call rfolder rfile, True),
      (PathExists (rfile @ ''-annotations.pdf''), True),
      (ShutilMove (rfile @ ''-annotations.pdf'') outpath, True),
      (OsRemove (rfile @ ''.zip''), True)]"

definition backup_ok :: "string \<Rightarrow> string \<Rightarrow> world" where
  "backup_ok trash doc =
     dl_ok MENDELEY_FOLDER_IN_REMARKABLE doc (doc @ ''.pdf'')
       @ [(ShutilMove (doc @ ''.pdf'') (trash @ ''/'' @ doc @ ''.pdf''), True)]"

definition rm_call :: "string \<Rightarrow> call" where
  "rm_call doc = Popen [rmapi, ''rm'', MENDELEY_FOLDER_IN_REMARKABLE @ ''/'' @ doc]"

text \<open>
  \<open>rm_guarded\<close>: whenever the log holds a delete on the tablet, the calls right before it
  are the backup of the same file, all gone well. \<open>fail_last\<close>: a call that failed is the
  last call of the log. \<open>body_ok\<close> puts the two together for one pass over a list of keys.
\<close>

definition rm_guarded :: "string \<Rightarrow> world \<Rightarrow> bool" where
  "rm_guarded trash evs =
     (\<forall>pre post doc b. evs = pre @ (rm_call doc, b) # post \<longrightarrow> suffix (backup_ok trash doc) pre)"

definition fail_last :: "world \<Rightarrow> bool \<Rightarrow> bool" where
  "fail_last evs failed = (\<forall>pre post c. evs = pre @ (c, False) # post \<longrightarrow> post = [] \<and> failed)"

definition body_ok :: "string \<Rightarrow> world \<Rightarrow> bool \<Rightarrow> bool" where
  "body_ok t evs ok = (rm_guarded t evs \<and> fail_last evs (\<not> ok) \<and> (ok \<longrightarrow> list_all snd evs))"

text \<open>
  The calls that change nothing outside: reading the session, \<open>GET\<close> requests, \<open>rmapi ls\<close>,
  \<open>os.path.exists\<close>, \<open>print\<close>. Deleting or attaching a file in Mendeley, every other
  \<open>rmapi\<close> command (\<open>put\<close>, \<open>rm\<close>, \<open>geta\<close>), moving, removing and making directories are not
  among them.
\<close>

fun read_only :: "call \<Rightarrow> bool" where
  "read_only GetSession = True"
| "read_only (HttpGet uri) = True"
| "read_only (DocumentsGet i) = True"
| "read_only (Popen args) = (take 1 (drop 1 args) = [''ls''])"
| "read_only (Print s) = True"
| "read_only (PathExists p) = True"
| "read_only c = False"

definition ro_ext :: "world \<Rightarrow> world \<Rightarrow> bool" where
  "ro_ext w w' = (\<exists>evs. w' = w @ evs \<and> list_all (\<lambda>e. read_only (fst e)) evs)"

subsection \<open>Example worlds\<close>

text \<open>
  \<open>demo\<close>: the Mendeley folder \<open>Remarkable\<close> holds the documents \<open>A\<close> (id 1) and \<open>B.\<close>
  (id 2), sent in two pages; the tablet folder \<open>Mendeley\<close> holds \<open>B---2\<close> and \<open>C---3\<close>; every
  call goes well. The other worlds change one answer of \<open>demo\<close>.
\<close>

definition demo_http :: "nat \<Rightarrow> string \<Rightarrow> exn + response" where
  "demo_http t uri =
     (if uri = ''https://api.mendeley.com/folders?limit=500''
      then Inr \<lparr>content = Inr [[(''id'', ''f0''), (''name'', ''Inbox'')],
                               [(''id'', ''f1''), (''name'', ''Remarkable''), (''parent_id'', ''f0'')]],
                next_url = None\<rparr>
      else if uri = ''https://api.mendeley.com/folders/f1/documents?limit=500''
      then Inr \<lparr>content = Inr [[(''id'', ''1'')]], next_url = Some ''page2''\<rparr>
      else if uri = ''page2''
      then Inr \<lparr>content = Inr [[(''id'', ''2'')]], next_url = None\<rparr>
      else Inl ''404'')"

definition demo_docs :: "nat \<Rightarrow> string \<Rightarrow> exn + document" where
  "demo_docs t i =
     (if i = ''1'' then Inr \<lparr>doc_id = ''1'', title = ''A''\<rparr>
      else if i = ''2'' then Inr \<lparr>doc_id = ''2'', title = ''B.''\<rparr>
      else Inl ''404'')"

definition demo_popen :: "nat \<Rightarrow> string list \<Rightarrow> exn + (int \<times> string \<times> string)" where
  "demo_popen t args =
     (if args = [''./rmapi'', ''ls'']
      then Inr (0, ''[d]'' @ [CHR 0x09] @ ''Mendeley'' @ [CHR 0x0A], [])
      else if args = [''./rmapi'', ''ls'', ''Mendeley'']
      then Inr (0, ''[f]'' @ [CHR 0x09] @ ''B---2'' @ [CHR 0x0A]
                     @ ''[f]'' @ [CHR 0x09] @ ''C---3'' @ [CHR 0x0A], [])
      else Inr (0, [], []))"

definition demo_files :: "nat \<Rightarrow> string \<Rightarrow> mfile list \<times> exn option" where
  "demo_files t i = ([\<lparr>file_id = ''x'' @ i, file_repr = ''File x'' @ i\<rparr>], None)"

definition demo :: env where
  "demo = \<lparr>session_r = (\<lambda>t. None),
           http_get = demo_http,
           documents_get = demo_docs,
           popen = demo_popen,
           path_exists = (\<lambda>t p. True),
           shutil_move = (\<lambda>t a b. None),
           os_remove = (\<lambda>t p. None),
           os_makedirs = (\<lambda>t p. None),
           uuid4_hex = (\<lambda>t. ''u'' ),
           files_iter = demo_files,
           file_delete = (\<lambda>t i. None),
           attach_file = (\<lambda>t i p. None),
           file_download = (\<lambda>t i d. Inr (d @ ''/'' @ i @ ''.pdf'')),
           repr_args = (\<lambda>args. ''('' @ str_join '', '' args @ '')''),
           repr_bytes = (\<lambda>b. b),
           decode_utf8 = Inr\<rparr>"

definition demo_mdocuments :: "document list" where
  "demo_mdocuments = [\<lparr>doc_id = ''1'', title = ''A''\<rparr>, \<lparr>doc_id = ''2'', title = ''B.''\<rparr>]"

text \<open>
  \<open>rmapi geta\<close> exits with status 1 and the message of an export without annotations.
\<close>

definition demo_geta_fails :: env where
  "demo_geta_fails =
     demo\<lparr>popen := (\<lambda>t args.
        if take 1 (drop 1 args) = [''geta'']
        then Inr (1, [], ''Failed to generate annotations'')
        else demo_popen t args)\<rparr>"

text \<open>No file can be moved into the trash directory.\<close>

definition demo_trash_fails :: env where
  "demo_trash_fails =
     demo\<lparr>shutil_move := (\<lambda>t src dst.
        if take 6 dst = ''trash/'' then Some ''[Errno 28] No space left on device'' else None)\<rparr>"

text \<open>No document has an attachment.\<close>

definition demo_no_files :: env where
  "demo_no_files = demo\<lparr>files_iter := (\<lambda>t i. ([], None))\<rparr>"

text \<open>Mendeley has no folder \<open>Remarkable\<close>; the tablet has no folder \<open>Mendeley\<close>.\<close>

definition demo_no_folder :: env where
  "demo_no_folder =
     demo\<lparr>http_get := (\<lambda>t uri.
        Inr \<lparr>content = Inr [[(''id'', ''f0''), (''name'', ''Inbox'')]], next_url = None\<rparr>)\<rparr>"

definition demo_no_tablet_folder :: env where
  "demo_no_tablet_folder =
     demo\<lparr>popen := (\<lambda>t args. Inr (0, ''[d]'' @ [CHR 0x09] @ ''Books'' @ [CHR 0x0A], []))\<rparr>"

text \<open>
  A document whose title is \<open>Failed to generate annotations\<close>, and a tablet tool that leaves
  no zip file behind: \<open>os.remove\<close> of the zip raises \<open>FileNotFoundError\<close>, whose message
  names the file.
\<close>

definition leak_mdocuments :: "document list" where
  "leak_mdocuments = [\<lparr>doc_id = ''1'', title = ''Failed to generate annotations''\<rparr>]"

definition demo_zip_missing :: env where
  "demo_zip_missing =
     demo\<lparr>os_remove := (\<lambda>t p.
        if p = ''Failed to generate annotations---1.zip''
        then Some (''[Errno 2] No such file or directory: '' @ [CHR 0x27] @ p @ [CHR 0x27])
        else None)\<rparr>"

section \<open>Properties\<close>

subsection \<open>Strings\<close>

lemma str_replace_char_filter:
  "str_replace [c] [] s = filter (\<lambda>x. x \<noteq> c) s"
proof (induction s)
  case Nil
  show ?case by (simp add: str_replace.simps)
next
  case (Cons a s)
  show ?case
  proof (cases "a = c")
    case True
    then show ?thesis using Cons.IH by (subst str_replace.simps) simp
  next
    case False
    then show ?thesis using Cons.IH by (subst str_replace.simps) simp
  qed
qed

lemma to_filename_filter:
  "to_filename text nospaces = filter (\<lambda>x. x \<noteq> CHR ''.'') text"
  by (simp add: to_filename_def str_replace_char_filter)

lemma str_contains_sublist: "str_contains old s = sublist old s"
  by (induction s) (simp_all add: sublist_Cons_right)

subsection \<open>The identity codec\<close>

text \<open>
  Claim C10. For every text and either value of \<open>nospaces\<close>, \<open>to_filename\<close> returns the text
  with every period removed and every other character kept in place; the flag \<open>nospaces\<close>
  does not change the result; applying \<open>to_filename\<close> twice gives what applying it once gives.
\<close>

theorem to_filename_removes_periods_only:
  "to_filename t ns = filter (\<lambda>c. c \<noteq> CHR ''.'') t \<and>
   to_filename t True = to_filename t False \<and>
   to_filename (to_filename t ns) ns' = to_filename t ns"
  by (simp add: to_filename_filter)

theorem to_filename_removes_periods_only_witness:
  "to_filename ''a.b c..d'' True = ''ab cd'' \<and>
   to_filename ''a.b c..d'' True = to_filename ''a.b c..d'' False \<and>
   to_filename (to_filename ''a.b c..d'' True) False = to_filename ''a.b c..d'' True"
proof -
  have "filter (\<lambda>c. c \<noteq> CHR ''.'') ''a.b c..d'' = ''ab cd''" by simp
  with to_filename_removes_periods_only [of "''a.b c..d''" True False]
  show ?thesis by (elim conjE) (intro conjI, simp_all only:)
qed

text \<open>
  Claim C4. The key is a function of \<open>(title, id)\<close>, and for a fixed title two keys are equal
  exactly when the ids are equal: distinct ids give distinct keys.
\<close>

theorem canonicalize_injective_in_id:
  "(canonicalize t id1 = canonicalize t id2) = (id1 = id2)"
  by (simp add: canonicalize_def)

theorem canonicalize_injective_in_id_witness:
  "canonicalize ''My. Paper'' ''7f'' \<noteq> canonicalize ''My. Paper'' ''7e''"
  using canonicalize_injective_in_id [of "''My. Paper''" "''7f''" "''7e''"] by simp

text \<open>
  Claim C5, as stated, fails: \<open>to_filename\<close> removes periods only, so a title with three hyphens
  in a row keeps them and the sanitized title contains the delimiter.
\<close>

theorem to_filename_keeps_delimiter_counterexample:
  "to_filename ''a---b'' False = ''a---b'' \<and>
   str_contains ''---'' (to_filename ''a---b'' False)"
  by (simp add: to_filename_filter)

text \<open>
  Claim C5, amended. For every title and either value of \<open>nospaces\<close>, the sanitized title
  contains no period character, and every other character of the title is kept, in its
  place: a title without periods comes back unchanged, hyphens included.
\<close>

theorem to_filename_no_period:
  "CHR ''.'' \<notin> set (to_filename t ns) \<and>
   filter (\<lambda>c. c \<noteq> CHR ''.'') (to_filename t ns) = filter (\<lambda>c. c \<noteq> CHR ''.'') t \<and>
   (CHR ''.'' \<notin> set t \<longrightarrow> to_filename t ns = t)"
proof (intro conjI impI)
  show "CHR ''.'' \<notin> set (to_filename t ns)" by (simp add: to_filename_filter)
  show "filter (\<lambda>c. c \<noteq> CHR ''.'') (to_filename t ns) = filter (\<lambda>c. c \<noteq> CHR ''.'') t"
    by (simp add: to_filename_filter)
next
  assume "CHR ''.'' \<notin> set t"
  then have "filter (\<lambda>c. c \<noteq> CHR ''.'') t = t" by (intro filter_True) auto
  then show "to_filename t ns = t" by (simp add: to_filename_filter)
qed

theorem to_filename_no_period_witness:
  "CHR ''.'' \<notin> set ''a-b---c'' \<and>
   to_filename ''a-b---c'' False = ''a-b---c'' \<and>
   CHR ''.'' \<notin> set (to_filename ''x.-.-.-y'' False) \<and>
   filter (\<lambda>c. c \<noteq> CHR ''.'') (to_filename ''x.-.-.-y'' False) = ''x---y''"
proof -
  have h: "CHR ''.'' \<notin> set ''a-b---c''" by simp
  from to_filename_no_period [of "''a-b---c''" False] h
  have c1: "to_filename ''a-b---c'' False = ''a-b---c''" by blast
  have f: "filter (\<lambda>c. c \<noteq> CHR ''.'') ''x.-.-.-y'' = ''x---y''" by simp
  from to_filename_no_period [of "''x.-.-.-y''" False]
  have c2: "CHR ''.'' \<notin> set (to_filename ''x.-.-.-y'' False)"
    and c3: "filter (\<lambda>c. c \<noteq> CHR ''.'') (to_filename ''x.-.-.-y'' False)
             = filter (\<lambda>c. c \<noteq> CHR ''.'') ''x.-.-.-y''"
    by blast+
  from c3 f have c4: "filter (\<lambda>c. c \<noteq> CHR ''.'') (to_filename ''x.-.-.-y'' False) = ''x---y''"
    by (rule trans)
  from h c1 c2 c4 show ?thesis by (intro conjI)
qed

subsection \<open>The three-way diff\<close>

text \<open>
  Claim C1. With \<open>S\<close> the keys of \<open>mfiles\<close> and \<open>T\<close> the entries of \<open>rfiles\<close>, the lists
  \<open>m_and_r\<close>, \<open>m_minus_r\<close> and \<open>r_minus_m\<close> of \<open>main\<close> hold the elements of \<open>S \<inter> T\<close>,
  \<open>S - T\<close> and \<open>T - S\<close>; the three are pairwise disjoint and together make up \<open>S \<union> T\<close>.
  Every pair of finite sets is the pair of element sets of two lists, the empty set and
  \<open>S = T\<close> included.
\<close>

theorem reconcile_partition:
  "set (m_and_r_of mfiles rfiles) = set (map fst mfiles) \<inter> set rfiles \<and>
   set (m_minus_r_of mfiles rfiles) = set (map fst mfiles) - set rfiles \<and>
   set (r_minus_m_of mfiles rfiles) = set rfiles - set (map fst mfiles) \<and>
   set (m_and_r_of mfiles rfiles) \<inter> set (m_minus_r_of mfiles rfiles) = {} \<and>
   set (m_and_r_of mfiles rfiles) \<inter> set (r_minus_m_of mfiles rfiles) = {} \<and>
   set (m_minus_r_of mfiles rfiles) \<inter> set (r_minus_m_of mfiles rfiles) = {} \<and>
   set (m_and_r_of mfiles rfiles) \<union> set (m_minus_r_of mfiles rfiles)
     \<union> set (r_minus_m_of mfiles rfiles) = set (map fst mfiles) \<union> set rfiles"
  unfolding m_and_r_of_def m_minus_r_of_def r_minus_m_of_def set_filter by blast

theorem reconcile_partition_witness:
  "set (m_and_r_of [(''A---1'', 0), (''B---2'', 1)] [''B---2'', ''C---3'']) = {''B---2''} \<and>
   set (m_minus_r_of [(''A---1'', 0), (''B---2'', 1)] [''B---2'', ''C---3'']) = {''A---1''} \<and>
   set (r_minus_m_of [(''A---1'', 0), (''B---2'', 1)] [''B---2'', ''C---3'']) = {''C---3''}"
  using reconcile_partition [of "[(''A---1'', 0), (''B---2'', 1)]" "[''B---2'', ''C---3'']"]
  by auto

subsection \<open>The key mapping\<close>

lemma mfiles_of_snoc:
  "mfiles_of (ds @ [d]) = AList.update (doc_key d) (length ds) (mfiles_of ds)"
  by (simp add: mfiles_of_def enumerate_append_eq)

lemma mfiles_of_Nil: "mfiles_of [] = []"
  by (simp add: mfiles_of_def)

lemma mfiles_of_distinct: "distinct (map fst (mfiles_of ds))"
  by (induction ds rule: rev_induct) (simp_all add: mfiles_of_snoc mfiles_of_Nil distinct_update)

lemma last_index_snoc_same:
  "(i < length (ds @ [d]) \<and> f ((ds @ [d]) ! i) = f d \<and>
      (\<forall>j. i < j \<and> j < length (ds @ [d]) \<longrightarrow> f ((ds @ [d]) ! j) \<noteq> f d)) = (i = length ds)"
proof
  assume a: "i < length (ds @ [d]) \<and> f ((ds @ [d]) ! i) = f d \<and>
      (\<forall>j. i < j \<and> j < length (ds @ [d]) \<longrightarrow> f ((ds @ [d]) ! j) \<noteq> f d)"
  show "i = length ds"
  proof (rule ccontr)
    assume "i \<noteq> length ds"
    with a have lt: "i < length ds" by simp
    from a have "\<forall>j. i < j \<and> j < length (ds @ [d]) \<longrightarrow> f ((ds @ [d]) ! j) \<noteq> f d" by blast
    then have "i < length ds \<and> length ds < length (ds @ [d]) \<longrightarrow> f ((ds @ [d]) ! length ds) \<noteq> f d"
      by (rule spec)
    with lt show False by simp
  qed
next
  assume e: "i = length ds"
  have "\<And>j. i < j \<and> j < length (ds @ [d]) \<longrightarrow> f ((ds @ [d]) ! j) \<noteq> f d"
    using e by (intro impI) (elim conjE, simp)
  with e show "i < length (ds @ [d]) \<and> f ((ds @ [d]) ! i) = f d \<and>
      (\<forall>j. i < j \<and> j < length (ds @ [d]) \<longrightarrow> f ((ds @ [d]) ! j) \<noteq> f d)" by simp
qed

lemma last_index_snoc_other:
  assumes "k \<noteq> f d"
  shows "(i < length (ds @ [d]) \<and> f ((ds @ [d]) ! i) = k \<and>
      (\<forall>j. i < j \<and> j < length (ds @ [d]) \<longrightarrow> f ((ds @ [d]) ! j) \<noteq> k)) =
      (i < length ds \<and> f (ds ! i) = k \<and>
      (\<forall>j. i < j \<and> j < length ds \<longrightarrow> f (ds ! j) \<noteq> k))"
proof -
  have 1: "(i < length (ds @ [d]) \<and> f ((ds @ [d]) ! i) = k) = (i < length ds \<and> f (ds ! i) = k)"
    using assms by (cases "i < length ds") (simp_all add: nth_append)
  have 2: "(\<forall>j. i < j \<and> j < length (ds @ [d]) \<longrightarrow> f ((ds @ [d]) ! j) \<noteq> k) =
      (\<forall>j. i < j \<and> j < length ds \<longrightarrow> f (ds ! j) \<noteq> k)"
  proof -
    have "\<And>j. (i < j \<and> j < length (ds @ [d]) \<longrightarrow> f ((ds @ [d]) ! j) \<noteq> k) =
               (i < j \<and> j < length ds \<longrightarrow> f (ds ! j) \<noteq> k)"
    proof -
      fix j
      show "(i < j \<and> j < length (ds @ [d]) \<longrightarrow> f ((ds @ [d]) ! j) \<noteq> k) =
               (i < j \<and> j < length ds \<longrightarrow> f (ds ! j) \<noteq> k)"
        using assms by (cases "j < length ds") (simp_all add: nth_append)
    qed
    then show ?thesis by simp
  qed
  from 1 2 show ?thesis by blast
qed

lemma mfiles_of_lookup:
  "(map_of (mfiles_of ds) k = Some i) =
     (i < length ds \<and> doc_key (ds ! i) = k \<and>
      (\<forall>j. i < j \<and> j < length ds \<longrightarrow> doc_key (ds ! j) \<noteq> k))"
proof (induction ds arbitrary: i rule: rev_induct)
  case Nil
  show ?case by (simp add: mfiles_of_Nil)
next
  case (snoc d ds)
  show ?case
  proof (cases "k = doc_key d")
    case True
    have "(map_of (mfiles_of (ds @ [d])) k = Some i) = (i = length ds)"
      using True by (auto simp add: mfiles_of_snoc update_conv')
    then show ?thesis unfolding True last_index_snoc_same[of i ds d doc_key] .
  next
    case False
    have "(map_of (mfiles_of (ds @ [d])) k = Some i) = (map_of (mfiles_of ds) k = Some i)"
      using False by (simp add: mfiles_of_snoc update_conv')
    then show ?thesis unfolding last_index_snoc_other[of k doc_key d i ds, OF False] using snoc.IH by simp
  qed
qed

text \<open>
  Claim C9. The keys of \<open>mfiles\<close> are pairwise distinct, so each key has one index; the index
  stored under a key is the last position of \<open>mdocuments\<close> whose document has that key; and
  the position of an earlier document with the same key is not a value of \<open>mfiles\<close>. The
  passes reach a document only as \<open>mdocuments[mfiles[doc]]\<close>, so such a document takes part
  in none of them.
\<close>

theorem mfiles_keeps_last_index:
  "distinct (map fst (mfiles_of ds)) \<and>
   ((map_of (mfiles_of ds) k = Some i) =
      (i < length ds \<and> doc_key (ds ! i) = k \<and>
       (\<forall>j. i < j \<and> j < length ds \<longrightarrow> doc_key (ds ! j) \<noteq> k))) \<and>
   (i < j \<and> j < length ds \<and> doc_key (ds ! i) = doc_key (ds ! j)
      \<longrightarrow> i \<notin> snd ` set (mfiles_of ds))"
proof (intro conjI impI)
  show "distinct (map fst (mfiles_of ds))" by (rule mfiles_of_distinct)
  show "(map_of (mfiles_of ds) k = Some i) =
      (i < length ds \<and> doc_key (ds ! i) = k \<and>
       (\<forall>j. i < j \<and> j < length ds \<longrightarrow> doc_key (ds ! j) \<noteq> k))"
    by (rule mfiles_of_lookup)
next
  assume a: "i < j \<and> j < length ds \<and> doc_key (ds ! i) = doc_key (ds ! j)"
  show "i \<notin> snd ` set (mfiles_of ds)"
  proof
    assume "i \<in> snd ` set (mfiles_of ds)"
    then obtain k' where "(k', i) \<in> set (mfiles_of ds)" by force
    then have "map_of (mfiles_of ds) k' = Some i"
      using mfiles_of_distinct [of ds] by simp
    then have "doc_key (ds ! i) = k'" and
       "\<forall>j. i < j \<and> j < length ds \<longrightarrow> doc_key (ds ! j) \<noteq> k'"
      by (simp_all add: mfiles_of_lookup)
    with a show False by metis
  qed
qed

theorem mfiles_keeps_last_index_witness:
  "map_of (mfiles_of [\<lparr>doc_id = ''1'', title = ''a.b''\<rparr>, \<lparr>doc_id = ''1'', title = ''ab''\<rparr>])
      ''ab---1'' = Some 1 \<and>
   0 \<notin> snd ` set (mfiles_of [\<lparr>doc_id = ''1'', title = ''a.b''\<rparr>, \<lparr>doc_id = ''1'', title = ''ab''\<rparr>]) \<and>
   distinct (map fst (mfiles_of [\<lparr>doc_id = ''1'', title = ''a.b''\<rparr>, \<lparr>doc_id = ''1'', title = ''ab''\<rparr>]))"
proof -
  let ?ds = "[\<lparr>doc_id = ''1'', title = ''a.b''\<rparr>, \<lparr>doc_id = ''1'', title = ''ab''\<rparr>]"
  have k: "doc_key (?ds ! 0) = ''ab---1''" "doc_key (?ds ! 1) = ''ab---1''"
    by (simp_all add: doc_key_def canonicalize_def to_filename_filter)
  have nj: "\<forall>j. (1::nat) < j \<and> j < length ?ds \<longrightarrow> doc_key (?ds ! j) \<noteq> ''ab---1''"
    by (intro allI impI) (elim conjE, simp)
  from mfiles_keeps_last_index [of ?ds "''ab---1''" 1 1] k nj
  have 1: "map_of (mfiles_of ?ds) ''ab---1'' = Some 1" by simp
  from mfiles_keeps_last_index [of ?ds "''ab---1''" 0 1] k
  have 2: "0 \<notin> snd ` set (mfiles_of ?ds)" by simp
  from mfiles_keeps_last_index [of ?ds "''ab---1''" 0 1]
  have 3: "distinct (map fst (mfiles_of ?ds))" by blast
  from 1 2 3 show ?thesis by blast
qed

subsection \<open>Calls and their logs\<close>

lemmas io_defs = io_bind_def io_return_def io_raise_def io_lift_def effect_def query_def
  print_def os_path_exists_def move_def remove_file_def makedirs_def uuid4_def

lemma run_cases:
  "run E p args w = (r, w') \<Longrightarrow>
     (\<exists>out. r = Inr out \<and> w' = w @ [(Popen (p # args), True)]) \<or>
     (\<exists>e. r = Inl e \<and> w' = w @ [(Popen (p # args), False)])"
  by (auto simp: run_def split: sum.splits prod.splits if_splits)

lemma download_cases:
  assumes "download E rmapi rf d out w = (r, w')"
  shows "(r = Inr () \<and> w' = w @ dl_ok rf d out) \<or>
         (\<exists>e. r = Inl e \<and>
            (w' = w @ [(geta_call rf d, False)] \<or>
             w' = w @ [(geta_call rf d, True), (PathExists (d @ ''-annotations.pdf''), False)] \<or>
             w' = w @ [(geta_call rf d, True), (PathExists (d @ ''-annotations.pdf''), True),
                       (ShutilMove (d @ ''-annotations.pdf'') out, False)] \<or>
             w' = w @ [(geta_call rf d, True), (PathExists (d @ ''-annotations.pdf''), True),
                       (ShutilMove (d @ ''-annotations.pdf'') out, True),
                       (OsRemove (d @ ''.zip''), False)]))"
proof (cases "run E rmapi [''geta'', ''-a'', rf @ ''/'' @ d] w")
  case (Pair r1 w1)
  from run_cases [OF Pair] show ?thesis
  proof
    assume "\<exists>out. r1 = Inr out \<and> w1 = w @ [(Popen [rmapi, ''geta'', ''-a'', rf @ ''/'' @ d], True)]"
    then show ?thesis using assms Pair
      by (auto simp: download_def io_defs dl_ok_def geta_call_def split: option.splits if_splits)
  next
    assume "\<exists>e. r1 = Inl e \<and> w1 = w @ [(Popen [rmapi, ''geta'', ''-a'', rf @ ''/'' @ d], False)]"
    then show ?thesis using assms Pair
      by (auto simp: download_def io_defs geta_call_def)
  qed
qed

lemma download_events:
  assumes "download E rmapi rf d out w = (r, w')"
  shows "\<exists>evs. w' = w @ evs \<and>
           set evs \<subseteq> {(geta_call rf d, True), (geta_call rf d, False),
                       (PathExists (d @ ''-annotations.pdf''), True),
                       (PathExists (d @ ''-annotations.pdf''), False),
                       (ShutilMove (d @ ''-annotations.pdf'') out, True),
                       (ShutilMove (d @ ''-annotations.pdf'') out, False),
                       (OsRemove (d @ ''.zip''), True), (OsRemove (d @ ''.zip''), False)}"
  using download_cases [OF assms] by (auto simp: dl_ok_def)

lemma io_bind_Inr: "m w = (Inr a, w') \<Longrightarrow> io_bind m f w = f a w'"
  by (simp add: io_bind_def)

lemma io_bind_Inl: "m w = (Inl e, w') \<Longrightarrow> io_bind m f w = (Inl e, w')"
  by (simp add: io_bind_def)

subsection \<open>The pass over the files only on the tablet\<close>

lemma rm_guarded_append:
  assumes "rm_guarded t xs" "rm_guarded t ys"
  shows "rm_guarded t (xs @ ys)"
  unfolding rm_guarded_def
proof (intro allI impI)
  fix pre post doc b
  assume eq: "xs @ ys = pre @ (rm_call doc, b) # post"
  then consider us where "xs = pre @ us" "us @ ys = (rm_call doc, b) # post"
    | us where "xs @ us = pre" "ys = us @ (rm_call doc, b) # post"
    by (auto simp: append_eq_append_conv2)
  then show "suffix (backup_ok t doc) pre"
  proof cases
    case 1
    show ?thesis
    proof (cases us)
      case Nil
      with 1 have "ys = [] @ (rm_call doc, b) # post" by simp
      with assms(2) have "suffix (backup_ok t doc) []" unfolding rm_guarded_def by blast
      then show ?thesis by (simp add: backup_ok_def)
    next
      case (Cons u us')
      with 1 have "xs = pre @ (rm_call doc, b) # us'" by simp
      with assms(1) show ?thesis unfolding rm_guarded_def by blast
    qed
  next
    case 2
    with assms(2) have "suffix (backup_ok t doc) us" unfolding rm_guarded_def by blast
    with 2 show ?thesis by (auto simp: suffix_def)
  qed
qed

lemma rm_guarded_free:
  assumes "\<forall>doc. rm_call doc \<notin> fst ` set evs"
  shows "rm_guarded t evs"
  unfolding rm_guarded_def
proof (intro allI impI)
  fix pre post doc b
  assume "evs = pre @ (rm_call doc, b) # post"
  then have "(rm_call doc, b) \<in> set evs" by simp
  then have "rm_call doc \<in> fst ` set evs" by force
  with assms show "suffix (backup_ok t doc) pre" by blast
qed

lemma rm_call_inj: "(rm_call d = rm_call d') = (d = d')"
  by (simp add: rm_call_def)

lemma rm_notin_backup_ok: "(rm_call doc, b) \<notin> set (backup_ok t d)"
  by (simp add: backup_ok_def dl_ok_def rm_call_def geta_call_def)

lemma snoc_eq_split:
  assumes "xs @ [x] = pre @ y # post"
  shows "(post = [] \<and> pre = xs \<and> x = y) \<or> (\<exists>post'. post = post' @ [x] \<and> xs = pre @ y # post')"
proof (cases post rule: rev_cases)
  case Nil
  with assms show ?thesis by simp
next
  case (snoc post' z)
  with assms have "xs @ [x] = (pre @ y # post') @ [z]" by simp
  then have "xs = pre @ y # post'" "x = z" by simp_all
  with snoc show ?thesis by simp
qed

lemma rm_guarded_block:
  "rm_guarded t (backup_ok t d @ [(rm_call d, b)])"
  unfolding rm_guarded_def
proof (intro allI impI)
  fix pre post doc b'
  assume "backup_ok t d @ [(rm_call d, b)] = pre @ (rm_call doc, b') # post"
  from snoc_eq_split [OF this] show "suffix (backup_ok t doc) pre"
  proof
    assume "post = [] \<and> pre = backup_ok t d \<and> (rm_call d, b) = (rm_call doc, b')"
    then show ?thesis by (simp add: rm_call_inj)
  next
    assume "\<exists>post'. post = post' @ [(rm_call d, b)] \<and> backup_ok t d = pre @ (rm_call doc, b') # post'"
    then have "(rm_call doc, b') \<in> set (backup_ok t d)" by auto
    then show ?thesis by (simp add: rm_notin_backup_ok)
  qed
qed

lemma fail_last_append:
  assumes "list_all snd xs" "fail_last ys f"
  shows "fail_last (xs @ ys) f"
  unfolding fail_last_def
proof (intro allI impI)
  fix pre post c
  assume eq: "xs @ ys = pre @ (c, False) # post"
  then consider us where "xs = pre @ us" "us @ ys = (c, False) # post"
    | us where "xs @ us = pre" "ys = us @ (c, False) # post"
    by (auto simp: append_eq_append_conv2)
  then show "post = [] \<and> f"
  proof cases
    case 1
    show ?thesis
    proof (cases us)
      case Nil
      with 1 have "ys = [] @ (c, False) # post" by simp
      with assms(2) show ?thesis unfolding fail_last_def by blast
    next
      case (Cons u us')
      with 1 have "(c, False) \<in> set xs" by simp
      with assms(1) show ?thesis by (auto simp: list_all_iff)
    qed
  next
    case 2
    with assms(2) show ?thesis unfolding fail_last_def by blast
  qed
qed

lemma fail_last_none:
  assumes "list_all snd xs"
  shows "fail_last xs f"
  unfolding fail_last_def
proof (intro allI impI)
  fix pre post c
  assume "xs = pre @ (c, False) # post"
  then have "(c, False) \<in> set xs" by simp
  with assms show "post = [] \<and> f" by (auto simp: list_all_iff)
qed

lemma fail_last_single: "fail_last [(c, b)] True"
  unfolding fail_last_def by (auto simp: Cons_eq_append_conv)

lemma fail_last_snoc:
  assumes "list_all snd xs"
  shows "fail_last (xs @ [(c, b)]) True"
  by (rule fail_last_append [OF assms fail_last_single])

lemma rm_free_simps:
  "rm_call doc \<noteq> geta_call rf d" "rm_call doc \<noteq> PathExists p" "rm_call doc \<noteq> ShutilMove a b'"
  "rm_call doc \<noteq> OsRemove p" "rm_call doc \<noteq> Print p"
  by (simp_all add: rm_call_def geta_call_def)

lemma body_ok_fail_free:
  assumes "list_all snd xs" "\<forall>doc. rm_call doc \<notin> fst ` set (xs @ [(c, False)])"
  shows "body_ok t (xs @ [(c, False)]) False"
  unfolding body_ok_def using rm_guarded_free [OF assms(2)] fail_last_snoc [OF assms(1)]
  by simp

lemma r_minus_m_body_trace:
  assumes "r_minus_m_body E t d w = (r, w')"
  shows "\<exists>evs. w' = w @ evs \<and> body_ok t evs (r = Inr ())"
proof -
  let ?M = MENDELEY_FOLDER_IN_REMARKABLE
  obtain r1 w1 where dl: "download E rmapi ?M d (d @ ''.pdf'') w = (r1, w1)" by force
  from download_cases [OF dl] show ?thesis
  proof (elim disjE exE conjE)
    fix e assume a: "r1 = Inl e" "w1 = w @ [(geta_call ?M d, False)]"
    have "body_ok t ([] @ [(geta_call ?M d, False)]) False"
      by (rule body_ok_fail_free) (simp_all add: rm_free_simps)
    with a dl assms show ?thesis by (auto simp: r_minus_m_body_def io_bind_def)
  next
    fix e assume a: "r1 = Inl e"
      "w1 = w @ [(geta_call ?M d, True), (PathExists (d @ ''-annotations.pdf''), False)]"
    have "body_ok t ([(geta_call ?M d, True)] @ [(PathExists (d @ ''-annotations.pdf''), False)]) False"
      by (rule body_ok_fail_free) (simp_all add: rm_free_simps)
    with a dl assms show ?thesis by (auto simp: r_minus_m_body_def io_bind_def)
  next
    fix e assume a: "r1 = Inl e"
      "w1 = w @ [(geta_call ?M d, True), (PathExists (d @ ''-annotations.pdf''), True),
                 (ShutilMove (d @ ''-annotations.pdf'') (d @ ''.pdf''), False)]"
    have "body_ok t ([(geta_call ?M d, True), (PathExists (d @ ''-annotations.pdf''), True)]
             @ [(ShutilMove (d @ ''-annotations.pdf'') (d @ ''.pdf''), False)]) False"
      by (rule body_ok_fail_free) (simp_all add: rm_free_simps)
    with a dl assms show ?thesis by (auto simp: r_minus_m_body_def io_bind_def)
  next
    fix e assume a: "r1 = Inl e"
      "w1 = w @ [(geta_call ?M d, True), (PathExists (d @ ''-annotations.pdf''), True),
                 (ShutilMove (d @ ''-annotations.pdf'') (d @ ''.pdf''), True),
                 (OsRemove (d @ ''.zip''), False)]"
    have "body_ok t ([(geta_call ?M d, True), (PathExists (d @ ''-annotations.pdf''), True),
                 (ShutilMove (d @ ''-annotations.pdf'') (d @ ''.pdf''), True)]
             @ [(OsRemove (d @ ''.zip''), False)]) False"
      by (rule body_ok_fail_free) (simp_all add: rm_free_simps)
    with a dl assms show ?thesis by (auto simp: r_minus_m_body_def io_bind_def)
  next
    assume a: "r1 = Inr ()" "w1 = w @ dl_ok ?M d (d @ ''.pdf'')"
    let ?mv = "ShutilMove (d @ ''.pdf'') (t @ ''/'' @ d @ ''.pdf'')"
    show ?thesis
    proof (cases "shutil_move E (length w1) (d @ ''.pdf'') (t @ ''/'' @ d @ ''.pdf'')")
      case (Some e)
      have "body_ok t (dl_ok ?M d (d @ ''.pdf'') @ [(?mv, False)]) False"
        by (rule body_ok_fail_free) (simp_all add: rm_free_simps dl_ok_def)
      with a dl assms Some show ?thesis
        by (auto simp: r_minus_m_body_def io_bind_def move_def effect_def)
    next
      case None
      let ?w2 = "w @ backup_ok t d"
      have mv: "move E (d @ ''.pdf'') (t @ ''/'' @ d @ ''.pdf'') w1 = (Inr (), ?w2)"
        using None a by (simp add: move_def effect_def backup_ok_def)
      obtain r3 w3 where rn: "run E rmapi [''rm'', ?M @ ''/'' @ d] ?w2 = (r3, w3)" by force
      from run_cases [OF rn] show ?thesis
      proof (elim disjE exE conjE)
        fix out assume b: "r3 = Inr out" "w3 = ?w2 @ [(Popen [rmapi, ''rm'', ?M @ ''/'' @ d], True)]"
        have g: "rm_guarded t ((backup_ok t d @ [(rm_call d, True)])
                   @ [(Print (''Document removed: '' @ d), True)])"
          by (rule rm_guarded_append [OF rm_guarded_block rm_guarded_free])
             (simp add: rm_free_simps)
        have "list_all snd (backup_ok t d @ [(rm_call d, True), (Print (''Document removed: '' @ d), True)])"
          by (simp add: backup_ok_def dl_ok_def)
        with g have "body_ok t (backup_ok t d @ [(rm_call d, True),
                        (Print (''Document removed: '' @ d), True)]) True"
          by (simp add: body_ok_def fail_last_none)
        with a dl assms mv rn b show ?thesis
          by (auto simp: r_minus_m_body_def io_bind_def remove_def print_def io_return_def rm_call_def)
      next
        fix e assume b: "r3 = Inl e" "w3 = ?w2 @ [(Popen [rmapi, ''rm'', ?M @ ''/'' @ d], False)]"
        have "list_all snd (backup_ok t d)" by (simp add: backup_ok_def dl_ok_def)
        then have "body_ok t (backup_ok t d @ [(rm_call d, False)]) False"
          by (simp add: body_ok_def fail_last_snoc rm_guarded_block)
        with a dl assms mv rn b show ?thesis
          by (auto simp: r_minus_m_body_def io_bind_def remove_def rm_call_def)
      qed
    qed
  qed
qed

lemma for_r_minus_m_trace:
  "for_r_minus_m E t docs w = (r, w') \<Longrightarrow> \<exists>evs. w' = w @ evs \<and> body_ok t evs (r = Inr ())"
proof (induction docs arbitrary: w)
  case Nil
  then show ?case
    by (simp add: io_return_def body_ok_def fail_last_none rm_guarded_free)
next
  case (Cons d ds)
  obtain r1 w1 where b: "r_minus_m_body E t d w = (r1, w1)" by force
  from r_minus_m_body_trace [OF b]
  obtain evs1 where e1: "w1 = w @ evs1" "body_ok t evs1 (r1 = Inr ())" by blast
  show ?case
  proof (cases r1)
    case (Inl e)
    with Cons.prems b e1 show ?thesis by (auto simp: io_bind_def)
  next
    case (Inr u)
    with Cons.prems b have "for_r_minus_m E t ds w1 = (r, w')" by (simp add: io_bind_def)
    from Cons.IH [OF this] obtain evs2 where e2: "w' = w1 @ evs2" "body_ok t evs2 (r = Inr ())"
      by blast
    from e1 Inr have a1: "rm_guarded t evs1" "list_all snd evs1" by (simp_all add: body_ok_def)
    from e2 have "body_ok t (evs1 @ evs2) (r = Inr ())"
      using a1 by (simp add: body_ok_def rm_guarded_append fail_last_append)
    with e1 e2 show ?thesis by simp
  qed
qed

lemma r_minus_m_body_download_fails:
  assumes "download E rmapi MENDELEY_FOLDER_IN_REMARKABLE doc (doc @ ''.pdf'') w0 = (Inl e, w1)"
  shows "r_minus_m_body E trash doc w0 = (Inl e, w1)"
  unfolding r_minus_m_body_def
  by (rule io_bind_Inl [where m = "download E rmapi MENDELEY_FOLDER_IN_REMARKABLE doc (doc @ ''.pdf'')",
        OF assms])

lemma r_minus_m_body_move_fails:
  assumes "download E rmapi MENDELEY_FOLDER_IN_REMARKABLE doc (doc @ ''.pdf'') w0 = (Inr (), w1)"
    and "shutil_move E (length w1) (doc @ ''.pdf'') (trash @ ''/'' @ doc @ ''.pdf'') = Some e"
  shows "r_minus_m_body E trash doc w0 =
           (Inl e, w1 @ [(ShutilMove (doc @ ''.pdf'') (trash @ ''/'' @ doc @ ''.pdf''), False)])"
  unfolding r_minus_m_body_def
    io_bind_Inr [where m = "download E rmapi MENDELEY_FOLDER_IN_REMARKABLE doc (doc @ ''.pdf'')",
        OF assms(1)]
  using assms(2) by (simp add: io_bind_def move_def effect_def)

lemma r_minus_m_body_backed_up:
  assumes "download E rmapi MENDELEY_FOLDER_IN_REMARKABLE doc (doc @ ''.pdf'') w0 = (Inr (), w1)"
    and "shutil_move E (length w1) (doc @ ''.pdf'') (trash @ ''/'' @ doc @ ''.pdf'') = None"
  shows "\<exists>r' b. r_minus_m_body E trash doc w0 =
           (r', w0 @ backup_ok trash doc @ (rm_call doc, b)
                  # (if b then [(Print (''Document removed: '' @ doc), True)] else [])) \<and>
           (r' = Inr ()) = b"
proof -
  let ?M = MENDELEY_FOLDER_IN_REMARKABLE
  from download_cases [OF assms(1)] have w1: "w1 = w0 @ dl_ok ?M doc (doc @ ''.pdf'')" by simp
  let ?w2 = "w0 @ backup_ok trash doc"
  have mv: "move E (doc @ ''.pdf'') (trash @ ''/'' @ doc @ ''.pdf'') w1 = (Inr (), ?w2)"
    using assms(2) w1 by (simp add: move_def effect_def backup_ok_def)
  obtain r3 w3 where rn: "run E rmapi [''rm'', ?M @ ''/'' @ doc] ?w2 = (r3, w3)" by force
  have body: "r_minus_m_body E trash doc w0 =
     io_bind (remove E rmapi ?M doc) (\<lambda>_. print (''Document removed: '' @ doc)) ?w2"
    unfolding r_minus_m_body_def
      io_bind_Inr [where m = "download E rmapi ?M doc (doc @ ''.pdf'')", OF assms(1)]
      io_bind_Inr [where m = "move E (doc @ ''.pdf'') (trash @ ''/'' @ doc @ ''.pdf'')", OF mv]
    by (rule refl)
  from run_cases [OF rn] show ?thesis
  proof (elim disjE exE conjE)
    fix out assume "r3 = Inr out" "w3 = ?w2 @ [(Popen [rmapi, ''rm'', ?M @ ''/'' @ doc], True)]"
    with rn have "r_minus_m_body E trash doc w0 =
       (Inr (), w0 @ backup_ok trash doc @ (rm_call doc, True)
                  # (if True then [(Print (''Document removed: '' @ doc), True)] else []))"
      by (simp add: body io_bind_def remove_def io_return_def print_def rm_call_def)
    then show ?thesis by blast
  next
    fix e assume "r3 = Inl e" "w3 = ?w2 @ [(Popen [rmapi, ''rm'', ?M @ ''/'' @ doc], False)]"
    with rn have "r_minus_m_body E trash doc w0 =
       (Inl e, w0 @ backup_ok trash doc @ (rm_call doc, False)
                  # (if False then [(Print (''Document removed: '' @ doc), True)] else []))"
      by (simp add: body io_bind_def remove_def rm_call_def)
    then show ?thesis by blast
  qed
qed

lemma r_minus_m_body_success:
  assumes "r_minus_m_body E trash doc w0 = (Inr (), w')"
  shows "w' = w0 @ backup_ok trash doc
              @ [(rm_call doc, True), (Print (''Document removed: '' @ doc), True)]"
proof -
  let ?M = MENDELEY_FOLDER_IN_REMARKABLE
  obtain r1 w1 where dl: "download E rmapi ?M doc (doc @ ''.pdf'') w0 = (r1, w1)" by force
  show ?thesis
  proof (cases r1)
    case (Inl e)
    with dl r_minus_m_body_download_fails [of E doc w0 e w1 trash] assms show ?thesis by simp
  next
    case (Inr u)
    with dl have dl': "download E rmapi ?M doc (doc @ ''.pdf'') w0 = (Inr (), w1)" by simp
    show ?thesis
    proof (cases "shutil_move E (length w1) (doc @ ''.pdf'') (trash @ ''/'' @ doc @ ''.pdf'')")
      case (Some e)
      from r_minus_m_body_move_fails [OF dl' Some] assms show ?thesis by simp
    next
      case None
      from r_minus_m_body_backed_up [OF dl' None] assms show ?thesis by auto
    qed
  qed
qed

lemma for_r_minus_m_Cons:
  "for_r_minus_m E trash (doc # ds) w0 =
     (case r_minus_m_body E trash doc w0 of
        (Inl e, w2) \<Rightarrow> (Inl e, w2)
      | (Inr u, w2) \<Rightarrow> for_r_minus_m E trash ds w2)"
  by (simp add: io_bind_def)

lemma for_r_minus_m_success:
  "for_r_minus_m E trash docs w = (Inr (), w') \<Longrightarrow>
     w' = w @ concat (map (\<lambda>d. backup_ok trash d
                @ [(rm_call d, True), (Print (''Document removed: '' @ d), True)]) docs)"
proof (induction docs arbitrary: w)
  case Nil
  then show ?case by (simp add: io_return_def)
next
  case (Cons d ds)
  obtain r1 w1 where b: "r_minus_m_body E trash d w = (r1, w1)" by force
  show ?case
  proof (cases r1)
    case (Inl e)
    with Cons.prems b show ?thesis by (simp add: io_bind_def)
  next
    case (Inr u)
    with b have b': "r_minus_m_body E trash d w = (Inr (), w1)" by simp
    from Cons.prems b' have "for_r_minus_m E trash ds w1 = (Inr (), w')"
      by (simp add: io_bind_def)
    from Cons.IH [OF this] r_minus_m_body_success [OF b'] show ?thesis by simp
  qed
qed

text \<open>
  Claim C2, for every world.
  \<^item> In the log of the pass over \<open>r_minus_m\<close>, a delete on the tablet (\<open>rmapi rm\<close>) stands
    right after the five calls of the backup of the same key, all gone well: the export
    downloaded, found, moved to \<open><doc>.pdf\<close>, the zip removed, and the file moved into the
    trash directory. A call that failed is the last call of the log, the pass ending with
    its exception. A pass that returns normally has, for every key in turn, made the
    backup, the delete and the print, and nothing else.
  \<^item> For one key: when the download and the move into the trash went well, the body of the
    loop has made exactly the backup and then the delete; it returns normally when the
    delete went well. When the download fails, the body and the pass end with its
    exception and no delete was issued; the same when the move into the trash fails.
  \<^item> The pass over no key does nothing; the pass over \<open>doc # ds\<close> is the body for \<open>doc\<close>
    and, unless it raised, the pass over \<open>ds\<close>.
\<close>

theorem backup_before_delete:
  "(for_r_minus_m E trash docs w = (r, w') \<longrightarrow>
      (\<exists>evs. w' = w @ evs \<and>
         (\<forall>pre post doc b. evs = pre @ (rm_call doc, b) # post
            \<longrightarrow> suffix (backup_ok trash doc) pre) \<and>
         (\<forall>pre post c. evs = pre @ (c, False) # post \<longrightarrow> post = [] \<and> r \<noteq> Inr ()) \<and>
         (r = Inr () \<longrightarrow>
            evs = concat (map (\<lambda>d. backup_ok trash d
                     @ [(rm_call d, True), (Print (''Document removed: '' @ d), True)]) docs)))) \<and>
   (download E rmapi MENDELEY_FOLDER_IN_REMARKABLE doc (doc @ ''.pdf'') w0 = (Inr (), w1) \<and>
    shutil_move E (length w1) (doc @ ''.pdf'') (trash @ ''/'' @ doc @ ''.pdf'') = None \<longrightarrow>
      (\<exists>r' b. r_minus_m_body E trash doc w0 =
           (r', w0 @ backup_ok trash doc @ (rm_call doc, b)
                  # (if b then [(Print (''Document removed: '' @ doc), True)] else [])) \<and>
           (r' = Inr ()) = b)) \<and>
   (download E rmapi MENDELEY_FOLDER_IN_REMARKABLE doc (doc @ ''.pdf'') w0 = (Inl e, w1) \<longrightarrow>
      r_minus_m_body E trash doc w0 = (Inl e, w1) \<and>
      for_r_minus_m E trash (doc # ds) w0 = (Inl e, w1) \<and>
      (\<exists>evs. w1 = w0 @ evs \<and> (\<forall>d b. (rm_call d, b) \<notin> set evs))) \<and>
   (download E rmapi MENDELEY_FOLDER_IN_REMARKABLE doc (doc @ ''.pdf'') w0 = (Inr (), w1) \<and>
    shutil_move E (length w1) (doc @ ''.pdf'') (trash @ ''/'' @ doc @ ''.pdf'') = Some e \<longrightarrow>
      r_minus_m_body E trash doc w0 =
        (Inl e, w1 @ [(ShutilMove (doc @ ''.pdf'') (trash @ ''/'' @ doc @ ''.pdf''), False)]) \<and>
      for_r_minus_m E trash (doc # ds) w0 =
        (Inl e, w1 @ [(ShutilMove (doc @ ''.pdf'') (trash @ ''/'' @ doc @ ''.pdf''), False)]) \<and>
      (\<exists>evs. w1 = w0 @ evs \<and> (\<forall>d b. (rm_call d, b) \<notin> set evs))) \<and>
   for_r_minus_m E trash [] w = (Inr (), w) \<and>
   for_r_minus_m E trash (doc # ds) w0 =
     (case r_minus_m_body E trash doc w0 of
        (Inl e, w2) \<Rightarrow> (Inl e, w2)
      | (Inr u, w2) \<Rightarrow> for_r_minus_m E trash ds w2)"
proof (intro conjI impI)
  assume a: "for_r_minus_m E trash docs w = (r, w')"
  from for_r_minus_m_trace [OF a] obtain evs where
    e: "w' = w @ evs" "body_ok trash evs (r = Inr ())" by blast
  have "r = Inr () \<longrightarrow>
            evs = concat (map (\<lambda>d. backup_ok trash d
                     @ [(rm_call d, True), (Print (''Document removed: '' @ d), True)]) docs)"
    using a e(1) for_r_minus_m_success [of E trash docs w w'] by auto
  with e show "\<exists>evs. w' = w @ evs \<and>
         (\<forall>pre post doc b. evs = pre @ (rm_call doc, b) # post
            \<longrightarrow> suffix (backup_ok trash doc) pre) \<and>
         (\<forall>pre post c. evs = pre @ (c, False) # post \<longrightarrow> post = [] \<and> r \<noteq> Inr ()) \<and>
         (r = Inr () \<longrightarrow>
            evs = concat (map (\<lambda>d. backup_ok trash d
                     @ [(rm_call d, True), (Print (''Document removed: '' @ d), True)]) docs))"
    unfolding body_ok_def rm_guarded_def fail_last_def by blast
next
  assume "download E rmapi MENDELEY_FOLDER_IN_REMARKABLE doc (doc @ ''.pdf'') w0 = (Inr (), w1) \<and>
    shutil_move E (length w1) (doc @ ''.pdf'') (trash @ ''/'' @ doc @ ''.pdf'') = None"
  then show "\<exists>r' b. r_minus_m_body E trash doc w0 =
           (r', w0 @ backup_ok trash doc @ (rm_call doc, b)
                  # (if b then [(Print (''Document removed: '' @ doc), True)] else [])) \<and>
           (r' = Inr ()) = b"
    using r_minus_m_body_backed_up by blast
next
  assume a: "download E rmapi MENDELEY_FOLDER_IN_REMARKABLE doc (doc @ ''.pdf'') w0 = (Inl e, w1)"
  show "r_minus_m_body E trash doc w0 = (Inl e, w1)"
    by (rule r_minus_m_body_download_fails [OF a])
  then show "for_r_minus_m E trash (doc # ds) w0 = (Inl e, w1)"
    by (simp add: io_bind_def)
  from download_events [OF a] show "\<exists>evs. w1 = w0 @ evs \<and> (\<forall>d b. (rm_call d, b) \<notin> set evs)"
    by (auto simp: rm_call_def geta_call_def)
next
  assume a: "download E rmapi MENDELEY_FOLDER_IN_REMARKABLE doc (doc @ ''.pdf'') w0 = (Inr (), w1) \<and>
    shutil_move E (length w1) (doc @ ''.pdf'') (trash @ ''/'' @ doc @ ''.pdf'') = Some e"
  then have d: "download E rmapi MENDELEY_FOLDER_IN_REMARKABLE doc (doc @ ''.pdf'') w0 = (Inr (), w1)"
    and m: "shutil_move E (length w1) (doc @ ''.pdf'') (trash @ ''/'' @ doc @ ''.pdf'') = Some e"
    by simp_all
  show "r_minus_m_body E trash doc w0 =
        (Inl e, w1 @ [(ShutilMove (doc @ ''.pdf'') (trash @ ''/'' @ doc @ ''.pdf''), False)])"
    by (rule r_minus_m_body_move_fails [OF d m])
  then show "for_r_minus_m E trash (doc # ds) w0 =
        (Inl e, w1 @ [(ShutilMove (doc @ ''.pdf'') (trash @ ''/'' @ doc @ ''.pdf''), False)])"
    by (simp add: io_bind_def)
  from download_events [OF d] show "\<exists>evs. w1 = w0 @ evs \<and> (\<forall>d b. (rm_call d, b) \<notin> set evs)"
    by (auto simp: rm_call_def geta_call_def)
next
  show "for_r_minus_m E trash [] w = (Inr (), w)" by (simp add: io_return_def)
  show "for_r_minus_m E trash (doc # ds) w0 =
     (case r_minus_m_body E trash doc w0 of
        (Inl e, w2) \<Rightarrow> (Inl e, w2)
      | (Inr u, w2) \<Rightarrow> for_r_minus_m E trash ds w2)"
    by (rule for_r_minus_m_Cons)
qed

theorem backup_before_delete_witness:
  "for_r_minus_m demo ''trash'' [''C---3''] [] =
     (Inr (), backup_ok ''trash'' ''C---3''
              @ [(rm_call ''C---3'', True), (Print ''Document removed: C---3'', True)]) \<and>
   (\<exists>evs. backup_ok ''trash'' ''C---3''
              @ [(rm_call ''C---3'', True), (Print ''Document removed: C---3'', True)] = [] @ evs \<and>
     (\<forall>pre post doc b. evs = pre @ (rm_call doc, b) # post
        \<longrightarrow> suffix (backup_ok ''trash'' doc) pre) \<and>
     (\<forall>pre post c. evs = pre @ (c, False) # post \<longrightarrow> post = [] \<and> Inr () \<noteq> (Inr () :: exn + unit)) \<and>
     ((Inr () :: exn + unit) = Inr () \<longrightarrow>
        evs = concat (map (\<lambda>d. backup_ok ''trash'' d
                 @ [(rm_call d, True), (Print (''Document removed: '' @ d), True)]) [''C---3'']))) \<and>
   download demo rmapi MENDELEY_FOLDER_IN_REMARKABLE ''C---3'' (''C---3'' @ ''.pdf'') [] =
     (Inr (), dl_ok ''Mendeley'' ''C---3'' ''C---3.pdf'') \<and>
   shutil_move demo (length (dl_ok ''Mendeley'' ''C---3'' ''C---3.pdf'')) (''C---3'' @ ''.pdf'')
     (''trash'' @ ''/'' @ ''C---3'' @ ''.pdf'') = None \<and>
   (\<exists>r' b. r_minus_m_body demo ''trash'' ''C---3'' [] =
           (r', [] @ backup_ok ''trash'' ''C---3'' @ (rm_call ''C---3'', b)
                  # (if b then [(Print (''Document removed: '' @ ''C---3''), True)] else [])) \<and>
           (r' = Inr ()) = b) \<and>
   download demo_geta_fails rmapi MENDELEY_FOLDER_IN_REMARKABLE ''C---3'' (''C---3'' @ ''.pdf'') [] =
     (Inl ''RmAPI (./rmapi, geta, -a, Mendeley/C---3) command failed: Failed to generate annotations'',
      [(geta_call ''Mendeley'' ''C---3'', False)]) \<and>
   r_minus_m_body demo_geta_fails ''trash'' ''C---3'' [] =
     (Inl ''RmAPI (./rmapi, geta, -a, Mendeley/C---3) command failed: Failed to generate annotations'',
      [(geta_call ''Mendeley'' ''C---3'', False)]) \<and>
   for_r_minus_m demo_geta_fails ''trash'' [''C---3'', ''D---4''] [] =
     (Inl ''RmAPI (./rmapi, geta, -a, Mendeley/C---3) command failed: Failed to generate annotations'',
      [(geta_call ''Mendeley'' ''C---3'', False)]) \<and>
   download demo_trash_fails rmapi MENDELEY_FOLDER_IN_REMARKABLE ''C---3'' (''C---3'' @ ''.pdf'') [] =
     (Inr (), dl_ok ''Mendeley'' ''C---3'' ''C---3.pdf'') \<and>
   shutil_move demo_trash_fails (length (dl_ok ''Mendeley'' ''C---3'' ''C---3.pdf''))
     (''C---3'' @ ''.pdf'') (''trash'' @ ''/'' @ ''C---3'' @ ''.pdf'')
     = Some ''[Errno 28] No space left on device'' \<and>
   for_r_minus_m demo_trash_fails ''trash'' [''C---3'', ''D---4''] [] =
     (Inl ''[Errno 28] No space left on device'',
      dl_ok ''Mendeley'' ''C---3'' ''C---3.pdf''
        @ [(ShutilMove (''C---3'' @ ''.pdf'') (''trash'' @ ''/'' @ ''C---3'' @ ''.pdf''), False)])"
proof -
  let ?ok = "backup_ok ''trash'' ''C---3''
              @ [(rm_call ''C---3'', True), (Print ''Document removed: C---3'', True)]"
  let ?ex = "''RmAPI (./rmapi, geta, -a, Mendeley/C---3) command failed: Failed to generate annotations''"
  let ?dl = "dl_ok ''Mendeley'' ''C---3'' ''C---3.pdf''"
  have h1: "for_r_minus_m demo ''trash'' [''C---3''] [] = (Inr (), ?ok)" by code_simp
  from backup_before_delete [of demo "''trash''" "[''C---3'']" "[]" "Inr ()" ?ok] h1
  have c1: "\<exists>evs. ?ok = [] @ evs \<and>
     (\<forall>pre post doc b. evs = pre @ (rm_call doc, b) # post
        \<longrightarrow> suffix (backup_ok ''trash'' doc) pre) \<and>
     (\<forall>pre post c. evs = pre @ (c, False) # post \<longrightarrow> post = [] \<and> Inr () \<noteq> (Inr () :: exn + unit)) \<and>
     ((Inr () :: exn + unit) = Inr () \<longrightarrow>
        evs = concat (map (\<lambda>d. backup_ok ''trash'' d
                 @ [(rm_call d, True), (Print (''Document removed: '' @ d), True)]) [''C---3'']))"
    by blast
  have h2: "download demo rmapi MENDELEY_FOLDER_IN_REMARKABLE ''C---3'' (''C---3'' @ ''.pdf'') []
              = (Inr (), ?dl)" by code_simp
  have h3: "shutil_move demo (length ?dl) (''C---3'' @ ''.pdf'')
              (''trash'' @ ''/'' @ ''C---3'' @ ''.pdf'') = None" by code_simp
  from backup_before_delete [where E = demo and trash = "''trash''" and doc = "''C---3''"
      and ?w0.0 = "[]" and ?w1.0 = ?dl] h2 h3
  have c2: "\<exists>r' b. r_minus_m_body demo ''trash'' ''C---3'' [] =
           (r', [] @ backup_ok ''trash'' ''C---3'' @ (rm_call ''C---3'', b)
                  # (if b then [(Print (''Document removed: '' @ ''C---3''), True)] else [])) \<and>
           (r' = Inr ()) = b"
    by blast
  have h4: "download demo_geta_fails rmapi MENDELEY_FOLDER_IN_REMARKABLE ''C---3''
              (''C---3'' @ ''.pdf'') [] = (Inl ?ex, [(geta_call ''Mendeley'' ''C---3'', False)])"
    by code_simp
  from backup_before_delete [where E = demo_geta_fails and trash = "''trash''"
      and doc = "''C---3''" and ?w0.0 = "[]" and ?w1.0 = "[(geta_call ''Mendeley'' ''C---3'', False)]"
      and e = ?ex and ds = "[''D---4'']"] h4
  have c3: "r_minus_m_body demo_geta_fails ''trash'' ''C---3'' [] =
              (Inl ?ex, [(geta_call ''Mendeley'' ''C---3'', False)])"
    and c4: "for_r_minus_m demo_geta_fails ''trash'' [''C---3'', ''D---4''] [] =
              (Inl ?ex, [(geta_call ''Mendeley'' ''C---3'', False)])"
    by blast+
  have h5: "download demo_trash_fails rmapi MENDELEY_FOLDER_IN_REMARKABLE ''C---3''
              (''C---3'' @ ''.pdf'') [] = (Inr (), ?dl)" by code_simp
  have h6: "shutil_move demo_trash_fails (length ?dl) (''C---3'' @ ''.pdf'')
              (''trash'' @ ''/'' @ ''C---3'' @ ''.pdf'') = Some ''[Errno 28] No space left on device''"
    by code_simp
  from backup_before_delete [where E = demo_trash_fails and trash = "''trash''"
      and doc = "''C---3''" and ?w0.0 = "[]" and ?w1.0 = ?dl
      and e = "''[Errno 28] No space left on device''" and ds = "[''D---4'']"] h5 h6
  have c5: "for_r_minus_m demo_trash_fails ''trash'' [''C---3'', ''D---4''] [] =
     (Inl ''[Errno 28] No space left on device'',
      ?dl @ [(ShutilMove (''C---3'' @ ''.pdf'') (''trash'' @ ''/'' @ ''C---3'' @ ''.pdf''), False)])"
    by blast
  from h1 c1 h2 h3 c2 h4 c3 c4 h5 h6 c5 show ?thesis by (intro conjI)
qed

subsection \<open>The pass over the documents on both sides\<close>

lemma both_body_skip:
  assumes "map_of mfiles doc = Some i" "i < length mdocuments"
    and "download E rmapi MENDELEY_FOLDER_IN_REMARKABLE doc (uuid4_hex E (length w) @ ''.pdf'')
           (w @ [(Uuid4, True)]) = (Inl ex, w1)"
    and "str_contains ''Failed to generate annotations'' ex"
  shows "both_body E mdocuments mfiles doc w =
           (Inr (), w1 @ [(Print (''Document skipped: '' @ doc @ ''. No annotations yet!''), True)])"
  using assms
  by (simp add: both_body_def mdoc_of_def io_bind_def io_return_def uuid4_def no_annotations_def
      print_def)

text \<open>
  Claim C3. When the download of the export of a key of \<open>m_and_r\<close> raises an exception
  whose message contains \<open>Failed to generate annotations\<close> (the test the script makes for
  the condition), the body of the loop returns normally after the print of the skip; the
  pass over that key alone ends with no exception; the pass over \<open>doc # docs\<close> goes on
  with \<open>docs\<close>; and the log the body adds holds no listing of the attachments of the
  document, no deletion of an attachment and no attach.
\<close>

theorem no_annotation_skip:
  assumes "map_of mfiles doc = Some i" "i < length mdocuments"
    and "download E rmapi MENDELEY_FOLDER_IN_REMARKABLE doc (uuid4_hex E (length w) @ ''.pdf'')
           (w @ [(Uuid4, True)]) = (Inl ex, w1)"
    and "str_contains ''Failed to generate annotations'' ex"
  shows "both_body E mdocuments mfiles doc w =
           (Inr (), w1 @ [(Print (''Document skipped: '' @ doc @ ''. No annotations yet!''), True)]) \<and>
         for_m_and_r E mdocuments mfiles [doc] w =
           (Inr (), w1 @ [(Print (''Document skipped: '' @ doc @ ''. No annotations yet!''), True)]) \<and>
         for_m_and_r E mdocuments mfiles (doc # docs) w =
           for_m_and_r E mdocuments mfiles docs
             (w1 @ [(Print (''Document skipped: '' @ doc @ ''. No annotations yet!''), True)]) \<and>
         (\<exists>evs. snd (both_body E mdocuments mfiles doc w) = w @ evs \<and>
             (FilesIter a, b) \<notin> set evs \<and> (FileDelete f, b) \<notin> set evs \<and>
             (AttachFile a p, b) \<notin> set evs)"
proof (intro conjI)
  note body = both_body_skip [OF assms]
  show "both_body E mdocuments mfiles doc w =
           (Inr (), w1 @ [(Print (''Document skipped: '' @ doc @ ''. No annotations yet!''), True)])"
    by (rule body)
  show "for_m_and_r E mdocuments mfiles [doc] w =
           (Inr (), w1 @ [(Print (''Document skipped: '' @ doc @ ''. No annotations yet!''), True)])"
    by (simp add: io_bind_def io_return_def body)
  show "for_m_and_r E mdocuments mfiles (doc # docs) w =
           for_m_and_r E mdocuments mfiles docs
             (w1 @ [(Print (''Document skipped: '' @ doc @ ''. No annotations yet!''), True)])"
    by (simp add: io_bind_def body)
  from download_events [OF assms(3)] obtain evs where
    e: "w1 = (w @ [(Uuid4, True)]) @ evs"
       "set evs \<subseteq> {(geta_call MENDELEY_FOLDER_IN_REMARKABLE doc, True),
                    (geta_call MENDELEY_FOLDER_IN_REMARKABLE doc, False),
                       (PathExists (doc @ ''-annotations.pdf''), True),
                       (PathExists (doc @ ''-annotations.pdf''), False),
                       (ShutilMove (doc @ ''-annotations.pdf'') (uuid4_hex E (length w) @ ''.pdf''), True),
                       (ShutilMove (doc @ ''-annotations.pdf'') (uuid4_hex E (length w) @ ''.pdf''), False),
                       (OsRemove (doc @ ''.zip''), True), (OsRemove (doc @ ''.zip''), False)}"
    by blast
  let ?evs = "(Uuid4, True) # evs @ [(Print (''Document skipped: '' @ doc @ ''. No annotations yet!''), True)]"
  have "snd (both_body E mdocuments mfiles doc w) = w @ ?evs"
    using e(1) by (simp add: body)
  moreover have "(FilesIter a, b) \<notin> set ?evs \<and> (FileDelete f, b) \<notin> set ?evs \<and>
             (AttachFile a p, b) \<notin> set ?evs"
    using e(2) by (auto simp: geta_call_def)
  ultimately show "\<exists>evs. snd (both_body E mdocuments mfiles doc w) = w @ evs \<and>
             (FilesIter a, b) \<notin> set evs \<and> (FileDelete f, b) \<notin> set evs \<and>
             (AttachFile a p, b) \<notin> set evs"
    by blast
qed

theorem no_annotation_skip_witness:
  "map_of (mfiles_of demo_mdocuments) ''B---2'' = Some 1 \<and>
   1 < length demo_mdocuments \<and>
   download demo_geta_fails rmapi MENDELEY_FOLDER_IN_REMARKABLE ''B---2''
       (uuid4_hex demo_geta_fails (length ([] :: world)) @ ''.pdf'') ([] @ [(Uuid4, True)]) =
     (Inl ''RmAPI (./rmapi, geta, -a, Mendeley/B---2) command failed: Failed to generate annotations'',
      [(Uuid4, True), (geta_call ''Mendeley'' ''B---2'', False)]) \<and>
   str_contains ''Failed to generate annotations''
     ''RmAPI (./rmapi, geta, -a, Mendeley/B---2) command failed: Failed to generate annotations'' \<and>
   both_body demo_geta_fails demo_mdocuments (mfiles_of demo_mdocuments) ''B---2'' [] =
     (Inr (), [(Uuid4, True), (geta_call ''Mendeley'' ''B---2'', False)]
          @ [(Print (''Document skipped: '' @ ''B---2'' @ ''. No annotations yet!''), True)]) \<and>
   for_m_and_r demo_geta_fails demo_mdocuments (mfiles_of demo_mdocuments) [''B---2''] [] =
     (Inr (), [(Uuid4, True), (geta_call ''Mendeley'' ''B---2'', False)]
          @ [(Print (''Document skipped: '' @ ''B---2'' @ ''. No annotations yet!''), True)]) \<and>
   (\<exists>evs. snd (both_body demo_geta_fails demo_mdocuments (mfiles_of demo_mdocuments) ''B---2'' [])
             = [] @ evs \<and>
          (FilesIter ''2'', True) \<notin> set evs \<and> (FileDelete ''x2'', True) \<notin> set evs \<and>
          (AttachFile ''2'' ''u.pdf'', True) \<notin> set evs)"
proof -
  have h1: "map_of (mfiles_of demo_mdocuments) ''B---2'' = Some 1" by code_simp
  have h2: "1 < length demo_mdocuments" by code_simp
  have h3: "download demo_geta_fails rmapi MENDELEY_FOLDER_IN_REMARKABLE ''B---2''
       (uuid4_hex demo_geta_fails (length ([] :: world)) @ ''.pdf'') ([] @ [(Uuid4, True)]) =
     (Inl ''RmAPI (./rmapi, geta, -a, Mendeley/B---2) command failed: Failed to generate annotations'',
      [(Uuid4, True), (geta_call ''Mendeley'' ''B---2'', False)])"
    by code_simp
  have h4: "str_contains ''Failed to generate annotations''
     ''RmAPI (./rmapi, geta, -a, Mendeley/B---2) command failed: Failed to generate annotations''"
    by code_simp
  note t = no_annotation_skip [OF h1 h2 h3 h4, of "[]" "''2''" True "''x2''" "''u.pdf''"]
  from t have c1: "both_body demo_geta_fails demo_mdocuments (mfiles_of demo_mdocuments) ''B---2'' [] =
     (Inr (), [(Uuid4, True), (geta_call ''Mendeley'' ''B---2'', False)]
          @ [(Print (''Document skipped: '' @ ''B---2'' @ ''. No annotations yet!''), True)])"
    by (rule conjunct1)
  from t have c2: "for_m_and_r demo_geta_fails demo_mdocuments (mfiles_of demo_mdocuments) [''B---2''] [] =
     (Inr (), [(Uuid4, True), (geta_call ''Mendeley'' ''B---2'', False)]
          @ [(Print (''Document skipped: '' @ ''B---2'' @ ''. No annotations yet!''), True)])"
    by blast
  from t have c3: "\<exists>evs. snd (both_body demo_geta_fails demo_mdocuments (mfiles_of demo_mdocuments) ''B---2'' [])
             = [] @ evs \<and>
          (FilesIter ''2'', True) \<notin> set evs \<and> (FileDelete ''x2'', True) \<notin> set evs \<and>
          (AttachFile ''2'' ''u.pdf'', True) \<notin> set evs"
    by blast
  from h1 h2 h3 h4 c1 c2 c3 show ?thesis by (intro conjI)
qed

text \<open>
  Claim C6, as stated, fails: on the skip path the body of the loop does \<open>continue\<close> and
  never calls \<open>os.remove(localpath)\<close>. In the first run below \<open>rmapi geta\<close> fails and no file
  was written to \<open>localpath\<close>. In the second the export was moved to \<open>localpath\<close>
  (\<open>u.pdf\<close>), then \<open>os.remove\<close> of the zip raised an exception whose message holds the
  name of the file and with it the words the script looks for: the key is skipped and
  \<open>u.pdf\<close> stays.
\<close>

theorem temp_file_left_on_skip_counterexample:
  "both_body demo_geta_fails demo_mdocuments (mfiles_of demo_mdocuments) ''B---2'' [] =
     (Inr (),
      [(Uuid4, True),
       (Popen [''./rmapi'', ''geta'', ''-a'', ''Mendeley/B---2''], False),
       (Print ''Document skipped: B---2. No annotations yet!'', True)]) \<and>
   both_body demo_zip_missing leak_mdocuments (mfiles_of leak_mdocuments)
       ''Failed to generate annotations---1'' [] =
     (Inr (),
      [(Uuid4, True),
       (Popen [''./rmapi'', ''geta'', ''-a'', ''Mendeley/Failed to generate annotations---1''], True),
       (PathExists ''Failed to generate annotations---1-annotations.pdf'', True),
       (ShutilMove ''Failed to generate annotations---1-annotations.pdf'' ''u.pdf'', True),
       (OsRemove ''Failed to generate annotations---1.zip'', False),
       (Print ''Document skipped: Failed to generate annotations---1. No annotations yet!'', True)])"
  by code_simp

lemma delete_each_append:
  "delete_each E fs w = (r, w') \<Longrightarrow> \<exists>evs. w' = w @ evs"
proof (induction fs arbitrary: w)
  case Nil
  then show ?case by (simp add: io_return_def)
next
  case (Cons f fs)
  show ?case
  proof (cases "file_delete E (length w) (file_id f)")
    case None
    with Cons.prems have "delete_each E fs (w @ [(FileDelete (file_id f), True)]) = (r, w')"
      by (simp add: io_bind_def delete_file_def effect_def)
    from Cons.IH [OF this] show ?thesis by auto
  next
    case (Some e)
    with Cons.prems show ?thesis by (auto simp: io_bind_def delete_file_def effect_def)
  qed
qed

text \<open>
  Claim C6, amended. After the export was downloaded, every attachment deleted and the
  file attached, the next call removes the temporary file, and it is the last call on a
  file for that key. On the no-annotation skip path the body prints and returns, and the
  log of the key holds no removal of the temporary file.
\<close>

theorem temp_file_removed_after_replace:
  assumes "map_of mfiles doc = Some i" "i < length mdocuments"
    and "tmp = uuid4_hex E (length w) @ ''.pdf''"
    and "download E rmapi MENDELEY_FOLDER_IN_REMARKABLE doc tmp (w @ [(Uuid4, True)]) = (r1, w1)"
  shows "(r1 = Inr () \<and>
          files_iter E (length w1) (doc_id (mdocuments ! i)) = (fs, None) \<and>
          delete_each E fs (w1 @ [(FilesIter (doc_id (mdocuments ! i)), True)]) = (Inr (), w2) \<and>
          attach_file E (length w2) (doc_id (mdocuments ! i)) tmp = None
          \<longrightarrow> both_body E mdocuments mfiles doc w =
               (case os_remove E (Suc (length w2)) tmp of
                  None \<Rightarrow> (Inr (), w2 @ [(AttachFile (doc_id (mdocuments ! i)) tmp, True),
                                          (OsRemove tmp, True),
                                          (Print (''Document synced: '' @ doc), True)])
                | Some e \<Rightarrow> (Inl e, w2 @ [(AttachFile (doc_id (mdocuments ! i)) tmp, True),
                                           (OsRemove tmp, False)]))) \<and>
         ((\<exists>ex. r1 = Inl ex \<and> str_contains ''Failed to generate annotations'' ex)
          \<longrightarrow> both_body E mdocuments mfiles doc w =
                 (Inr (), w1 @ [(Print (''Document skipped: '' @ doc @ ''. No annotations yet!''),
                                 True)]) \<and>
              (\<exists>evs. w1 = w @ evs \<and> (OsRemove tmp, b) \<notin> set evs))"
proof (intro conjI impI)
  assume a: "r1 = Inr () \<and>
          files_iter E (length w1) (doc_id (mdocuments ! i)) = (fs, None) \<and>
          delete_each E fs (w1 @ [(FilesIter (doc_id (mdocuments ! i)), True)]) = (Inr (), w2) \<and>
          attach_file E (length w2) (doc_id (mdocuments ! i)) tmp = None"
  then show "both_body E mdocuments mfiles doc w =
               (case os_remove E (Suc (length w2)) tmp of
                  None \<Rightarrow> (Inr (), w2 @ [(AttachFile (doc_id (mdocuments ! i)) tmp, True),
                                          (OsRemove tmp, True),
                                          (Print (''Document synced: '' @ doc), True)])
                | Some e \<Rightarrow> (Inl e, w2 @ [(AttachFile (doc_id (mdocuments ! i)) tmp, True),
                                           (OsRemove tmp, False)]))"
    using assms
    by (simp add: both_body_def mdoc_of_def io_bind_def io_return_def uuid4_def
        files_iter_start_def mdoc_attach_file_def effect_def remove_file_def print_def
        split: option.splits)
next
  assume "\<exists>ex. r1 = Inl ex \<and> str_contains ''Failed to generate annotations'' ex"
  then obtain ex where ex: "r1 = Inl ex" "str_contains ''Failed to generate annotations'' ex"
    by blast
  from assms(4) ex have dl: "download E rmapi MENDELEY_FOLDER_IN_REMARKABLE doc
     (uuid4_hex E (length w) @ ''.pdf'') (w @ [(Uuid4, True)]) = (Inl ex, w1)"
    using assms(3) by simp
  show "both_body E mdocuments mfiles doc w =
                 (Inr (), w1 @ [(Print (''Document skipped: '' @ doc @ ''. No annotations yet!''),
                                 True)])"
    by (rule both_body_skip [OF assms(1,2) dl ex(2)])
  from download_events [OF assms(4)] obtain evs where
    e: "w1 = (w @ [(Uuid4, True)]) @ evs"
       "set evs \<subseteq> {(geta_call MENDELEY_FOLDER_IN_REMARKABLE doc, True),
                    (geta_call MENDELEY_FOLDER_IN_REMARKABLE doc, False),
                       (PathExists (doc @ ''-annotations.pdf''), True),
                       (PathExists (doc @ ''-annotations.pdf''), False),
                       (ShutilMove (doc @ ''-annotations.pdf'') tmp, True),
                       (ShutilMove (doc @ ''-annotations.pdf'') tmp, False),
                       (OsRemove (doc @ ''.zip''), True), (OsRemove (doc @ ''.zip''), False)}"
    by blast
  have ne: "tmp \<noteq> doc @ ''.zip''"
  proof
    assume "tmp = doc @ ''.zip''"
    then have "last tmp = last (doc @ ''.zip'')" by simp
    then show False using assms(3) by simp
  qed
  have "(OsRemove tmp, b) \<notin> set ((Uuid4, True) # evs)"
    using e(2) ne by (auto simp: geta_call_def)
  with e(1) show "\<exists>evs. w1 = w @ evs \<and> (OsRemove tmp, b) \<notin> set evs"
    by (intro exI [of _ "(Uuid4, True) # evs"]) simp
qed

theorem temp_file_removed_after_replace_witness:
  "map_of (mfiles_of demo_mdocuments) ''B---2'' = Some 1 \<and>
   1 < length demo_mdocuments \<and>
   ''u.pdf'' = uuid4_hex demo (length ([] :: world)) @ ''.pdf'' \<and>
   download demo rmapi MENDELEY_FOLDER_IN_REMARKABLE ''B---2'' ''u.pdf'' ([] @ [(Uuid4, True)]) =
     (Inr (), (Uuid4, True) # dl_ok ''Mendeley'' ''B---2'' ''u.pdf'') \<and>
   files_iter demo (length ((Uuid4, True) # dl_ok ''Mendeley'' ''B---2'' ''u.pdf''))
       (doc_id (demo_mdocuments ! 1)) = ([\<lparr>file_id = ''x2'', file_repr = ''File x2''\<rparr>], None) \<and>
   delete_each demo [\<lparr>file_id = ''x2'', file_repr = ''File x2''\<rparr>]
       (((Uuid4, True) # dl_ok ''Mendeley'' ''B---2'' ''u.pdf'')
          @ [(FilesIter (doc_id (demo_mdocuments ! 1)), True)]) =
     (Inr (), ((Uuid4, True) # dl_ok ''Mendeley'' ''B---2'' ''u.pdf'')
                @ [(FilesIter ''2'', True), (FileDelete ''x2'', True)]) \<and>
   both_body demo demo_mdocuments (mfiles_of demo_mdocuments) ''B---2'' [] =
     (Inr (), (((Uuid4, True) # dl_ok ''Mendeley'' ''B---2'' ''u.pdf'')
                @ [(FilesIter ''2'', True), (FileDelete ''x2'', True)])
              @ [(AttachFile ''2'' ''u.pdf'', True), (OsRemove ''u.pdf'', True),
                 (Print ''Document synced: B---2'', True)]) \<and>
   download demo_geta_fails rmapi MENDELEY_FOLDER_IN_REMARKABLE ''B---2'' ''u.pdf''
       ([] @ [(Uuid4, True)]) =
     (Inl ''RmAPI (./rmapi, geta, -a, Mendeley/B---2) command failed: Failed to generate annotations'',
      [(Uuid4, True), (geta_call ''Mendeley'' ''B---2'', False)]) \<and>
   both_body demo_geta_fails demo_mdocuments (mfiles_of demo_mdocuments) ''B---2'' [] =
     (Inr (), [(Uuid4, True), (geta_call ''Mendeley'' ''B---2'', False)]
              @ [(Print (''Document skipped: '' @ ''B---2'' @ ''. No annotations yet!''), True)]) \<and>
   (\<exists>evs. [(Uuid4, True), (geta_call ''Mendeley'' ''B---2'', False)] = [] @ evs \<and>
          (OsRemove ''u.pdf'', True) \<notin> set evs)"
proof -
  let ?w1 = "(Uuid4, True) # dl_ok ''Mendeley'' ''B---2'' ''u.pdf''"
  let ?fs = "[\<lparr>file_id = ''x2'', file_repr = ''File x2''\<rparr>]"
  let ?w2 = "?w1 @ [(FilesIter ''2'', True), (FileDelete ''x2'', True)]"
  let ?ex = "''RmAPI (./rmapi, geta, -a, Mendeley/B---2) command failed: Failed to generate annotations''"
  let ?v1 = "[(Uuid4, True), (geta_call ''Mendeley'' ''B---2'', False)]"
  have h1: "map_of (mfiles_of demo_mdocuments) ''B---2'' = Some 1" by code_simp
  have h2: "1 < length demo_mdocuments" by code_simp
  have h3: "''u.pdf'' = uuid4_hex demo (length ([] :: world)) @ ''.pdf''" by code_simp
  have h4: "download demo rmapi MENDELEY_FOLDER_IN_REMARKABLE ''B---2'' ''u.pdf''
              ([] @ [(Uuid4, True)]) = (Inr (), ?w1)"
    by code_simp
  have a1: "files_iter demo (length ?w1) (doc_id (demo_mdocuments ! 1)) = (?fs, None)"
    by code_simp
  have a2: "delete_each demo ?fs (?w1 @ [(FilesIter (doc_id (demo_mdocuments ! 1)), True)])
              = (Inr (), ?w2)"
    by code_simp
  have a3: "attach_file demo (length ?w2) (doc_id (demo_mdocuments ! 1)) ''u.pdf'' = None"
    by code_simp
  have a4: "os_remove demo (Suc (length ?w2)) ''u.pdf'' = None" by code_simp
  have d: "doc_id (demo_mdocuments ! 1) = ''2''" by code_simp
  from temp_file_removed_after_replace [OF h1 h2 h3 h4, where fs = ?fs and ?w2.0 = ?w2] a1 a2 a3
  have "both_body demo demo_mdocuments (mfiles_of demo_mdocuments) ''B---2'' [] =
               (case os_remove demo (Suc (length ?w2)) ''u.pdf'' of
                  None \<Rightarrow> (Inr (), ?w2 @ [(AttachFile (doc_id (demo_mdocuments ! 1)) ''u.pdf'', True),
                                          (OsRemove ''u.pdf'', True),
                                          (Print (''Document synced: '' @ ''B---2''), True)])
                | Some e \<Rightarrow> (Inl e, ?w2 @ [(AttachFile (doc_id (demo_mdocuments ! 1)) ''u.pdf'', True),
                                           (OsRemove ''u.pdf'', False)]))"
    by blast
  note this [unfolded a4 d]
  then have c1: "both_body demo demo_mdocuments (mfiles_of demo_mdocuments) ''B---2'' [] =
     (Inr (), ?w2 @ [(AttachFile ''2'' ''u.pdf'', True), (OsRemove ''u.pdf'', True),
                 (Print ''Document synced: B---2'', True)])"
    by simp
  have g3: "''u.pdf'' = uuid4_hex demo_geta_fails (length ([] :: world)) @ ''.pdf''" by code_simp
  have g4: "download demo_geta_fails rmapi MENDELEY_FOLDER_IN_REMARKABLE ''B---2'' ''u.pdf''
       ([] @ [(Uuid4, True)]) = (Inl ?ex, ?v1)"
    by code_simp
  have g5: "str_contains ''Failed to generate annotations'' ?ex" by code_simp
  from temp_file_removed_after_replace [OF h1 h2 g3 g4, where b = True] g5
  have c2: "both_body demo_geta_fails demo_mdocuments (mfiles_of demo_mdocuments) ''B---2'' [] =
     (Inr (), ?v1 @ [(Print (''Document skipped: '' @ ''B---2'' @ ''. No annotations yet!''), True)]) \<and>
     (\<exists>evs. ?v1 = [] @ evs \<and> (OsRemove ''u.pdf'', True) \<notin> set evs)"
    by blast
  from h1 h2 h3 h4 a1 a2 c1 g4 c2 show ?thesis by (intro conjI) (elim conjE, assumption)+
qed

subsection \<open>The pass over the documents only in Mendeley\<close>

lemma first_file_path_cases:
  assumes "first_file_path E mdoc w = (r, w')"
  shows "(fst (files_iter E (length w) (doc_id mdoc)) = [] \<and>
          w' = w @ [(FilesIter (doc_id mdoc), True)]) \<or>
         (\<exists>f fs b. fst (files_iter E (length w) (doc_id mdoc)) = f # fs \<and>
            w' = w @ [(FilesIter (doc_id mdoc), True), (Print (file_repr f), True),
                      (FileDownload (file_id f) ''.'', b)])"
proof (cases "files_iter E (length w) (doc_id mdoc)")
  case (Pair fs stop)
  show ?thesis
  proof (cases fs)
    case Nil
    with Pair assms show ?thesis
      by (auto simp: first_file_path_def files_iter_start_def io_bind_def io_return_def
          io_raise_def split: option.splits)
  next
    case (Cons f fs')
    with Pair assms show ?thesis
      by (auto simp: first_file_path_def files_iter_start_def io_bind_def io_return_def
          print_def download_file_def query_def split: sum.splits)
  qed
qed

lemma m_minus_r_rest_events:
  assumes "(if falsy path
       then print (''WARNING! no files attached for document: '' @ t)
       else io_bind (move E (the path) (doc @ ''.pdf'')) (\<lambda>_.
            io_bind (upload E rmapi (doc @ ''.pdf'') MENDELEY_FOLDER_IN_REMARKABLE) (\<lambda>_.
            io_bind (remove_file E (doc @ ''.pdf'')) (\<lambda>_.
            print (''Document added: '' @ doc))))) w1 = (r, w')"
  shows "\<exists>evs. w' = w1 @ evs \<and> (\<forall>g d b. (FileDownload g d, b) \<notin> set evs)"
proof (cases "falsy path")
  case True
  with assms show ?thesis by (auto simp: print_def)
next
  case False
  note nf = this
  show ?thesis
  proof (cases "shutil_move E (length w1) (the path) (doc @ ''.pdf'')")
    case (Some e)
    with nf assms show ?thesis by (auto simp: io_bind_def move_def effect_def)
  next
    case None
    let ?w2 = "w1 @ [(ShutilMove (the path) (doc @ ''.pdf''), True)]"
    obtain r3 w3 where rn: "run E rmapi [''put'', doc @ ''.pdf'', MENDELEY_FOLDER_IN_REMARKABLE] ?w2
                             = (r3, w3)" by force
    from run_cases [OF rn] show ?thesis
    proof (elim disjE exE conjE)
      fix e assume "r3 = Inl e"
        "w3 = ?w2 @ [(Popen [rmapi, ''put'', doc @ ''.pdf'', MENDELEY_FOLDER_IN_REMARKABLE], False)]"
      with nf None rn assms show ?thesis
        by (auto simp: io_bind_def move_def effect_def upload_def)
    next
      fix out assume "r3 = Inr out"
        "w3 = ?w2 @ [(Popen [rmapi, ''put'', doc @ ''.pdf'', MENDELEY_FOLDER_IN_REMARKABLE], True)]"
      with nf None rn assms show ?thesis
        by (auto simp: io_bind_def io_return_def move_def effect_def upload_def remove_file_def
            print_def split: option.splits)
    qed
  qed
qed

lemma m_minus_r_body_downloads:
  assumes "map_of mfiles doc = Some i" "i < length mdocuments" "mdoc = mdocuments ! i"
  shows "\<exists>evs. snd (m_minus_r_body E mdocuments mfiles doc w) = w @ evs \<and>
           (\<forall>g d b. (FileDownload g d, b) \<in> set evs \<longrightarrow>
              (\<exists>f fs. fst (files_iter E (length w) (doc_id mdoc)) = f # fs \<and>
                      g = file_id f \<and> d = ''.'')) \<and>
           length (filter (\<lambda>e. case fst e of FileDownload g d \<Rightarrow> True | _ \<Rightarrow> False) evs) \<le> 1"
proof -
  obtain r1 w1 where p: "first_file_path E mdoc w = (r1, w1)" by force
  have "\<exists>evs1. w1 = w @ evs1 \<and>
           (\<forall>g d b. (FileDownload g d, b) \<in> set evs1 \<longrightarrow>
              (\<exists>f fs. fst (files_iter E (length w) (doc_id mdoc)) = f # fs \<and>
                      g = file_id f \<and> d = ''.'')) \<and>
           length (filter (\<lambda>e. case fst e of FileDownload g d \<Rightarrow> True | _ \<Rightarrow> False) evs1) \<le> 1"
    using first_file_path_cases [OF p] by auto
  then obtain evs1 where e1: "w1 = w @ evs1"
    "\<forall>g d b. (FileDownload g d, b) \<in> set evs1 \<longrightarrow>
              (\<exists>f fs. fst (files_iter E (length w) (doc_id mdoc)) = f # fs \<and>
                      g = file_id f \<and> d = ''.'')"
    "length (filter (\<lambda>e. case fst e of FileDownload g d \<Rightarrow> True | _ \<Rightarrow> False) evs1) \<le> 1"
    by blast
  show ?thesis
  proof (cases r1)
    case (Inl e)
    with p assms have "snd (m_minus_r_body E mdocuments mfiles doc w) = w @ evs1"
      by (simp add: m_minus_r_body_def mdoc_of_def io_bind_def io_return_def e1(1))
    with e1 show ?thesis by blast
  next
    case (Inr path)
    obtain r2 w2 where rest: "(if falsy path
       then print (''WARNING! no files attached for document: '' @ title mdoc)
       else io_bind (move E (the path) (doc @ ''.pdf'')) (\<lambda>_.
            io_bind (upload E rmapi (doc @ ''.pdf'') MENDELEY_FOLDER_IN_REMARKABLE) (\<lambda>_.
            io_bind (remove_file E (doc @ ''.pdf'')) (\<lambda>_.
            print (''Document added: '' @ doc))))) w1 = (r2, w2)" by force
    from m_minus_r_rest_events [OF rest] obtain evs2 where
      e2: "w2 = w1 @ evs2" "\<forall>g d b. (FileDownload g d, b) \<notin> set evs2" by blast
    have f2: "filter (\<lambda>e. case fst e of FileDownload g d \<Rightarrow> True | _ \<Rightarrow> False) evs2 = []"
      using e2(2) by (auto simp: filter_empty_conv split: call.splits)
    have m: "mdoc_of mdocuments mfiles doc w = (Inr mdoc, w)"
      using assms by (simp add: mdoc_of_def io_return_def)
    from p Inr have p': "first_file_path E mdoc w = (Inr path, w1)" by simp
    have "m_minus_r_body E mdocuments mfiles doc w = (r2, w2)"
      unfolding m_minus_r_body_def
        io_bind_Inr [where m = "mdoc_of mdocuments mfiles doc" and w = w, OF m]
        io_bind_Inr [where m = "first_file_path E mdoc" and w = w, OF p']
      by (rule rest)
    then have "snd (m_minus_r_body E mdocuments mfiles doc w) = w2" by simp
    then have "snd (m_minus_r_body E mdocuments mfiles doc w) = w @ (evs1 @ evs2)"
      using e1(1) e2(1) by simp
    moreover have "\<forall>g d b. (FileDownload g d, b) \<in> set (evs1 @ evs2) \<longrightarrow>
              (\<exists>f fs. fst (files_iter E (length w) (doc_id mdoc)) = f # fs \<and>
                      g = file_id f \<and> d = ''.'')"
      using e1(2) e2(2) by auto
    moreover have "length (filter (\<lambda>e. case fst e of FileDownload g d \<Rightarrow> True | _ \<Rightarrow> False)
                     (evs1 @ evs2)) \<le> 1"
      using e1(3) f2 by simp
    ultimately show ?thesis by blast
  qed
qed

text \<open>
  Claim C8. For a key of \<open>m_minus_r\<close> whose document has no attachment, the body of the
  loop makes the listing and prints a warning, and returns normally: the pass over that
  key alone ends with no exception, and the pass over \<open>doc # docs\<close> goes on with \<open>docs\<close>.
  For a document with attachments, when each call goes well, the body downloads the first
  one, moves the file to \<open><doc>.pdf\<close>, uploads it to the tablet folder and removes it, in
  this order and with no other call on a file. In every world, whatever fails, the body
  downloads at most one attachment, and it is the first of the listing.
\<close>

theorem push_first_attachment:
  assumes "map_of mfiles doc = Some i" "i < length mdocuments"
    and "mdoc = mdocuments ! i"
  shows "(files_iter E (length w) (doc_id mdoc) = ([], None)
          \<longrightarrow> m_minus_r_body E mdocuments mfiles doc w =
                 (Inr (), w @ [(FilesIter (doc_id mdoc), True),
                       (Print (''WARNING! no files attached for document: '' @ title mdoc), True)]) \<and>
               for_m_minus_r E mdocuments mfiles [doc] w =
                 (Inr (), w @ [(FilesIter (doc_id mdoc), True),
                       (Print (''WARNING! no files attached for document: '' @ title mdoc), True)]) \<and>
               for_m_minus_r E mdocuments mfiles (doc # docs) w =
               for_m_minus_r E mdocuments mfiles docs
                 (w @ [(FilesIter (doc_id mdoc), True),
                       (Print (''WARNING! no files attached for document: '' @ title mdoc), True)])) \<and>
         (files_iter E (length w) (doc_id mdoc) = (f # fs, stop) \<and>
          file_download E (length w + 2) (file_id f) ''.'' = Inr path \<and> path \<noteq> [] \<and>
          shutil_move E (length w + 3) path (doc @ ''.pdf'') = None \<and>
          popen E (length w + 4) [rmapi, ''put'', doc @ ''.pdf'', MENDELEY_FOLDER_IN_REMARKABLE]
            = Inr (0, out, err) \<and>
          os_remove E (length w + 5) (doc @ ''.pdf'') = None
          \<longrightarrow> m_minus_r_body E mdocuments mfiles doc w =
                 (Inr (), w @ [(FilesIter (doc_id mdoc), True),
                       (Print (file_repr f), True),
                       (FileDownload (file_id f) ''.'', True),
                       (ShutilMove path (doc @ ''.pdf''), True),
                       (Popen [rmapi, ''put'', doc @ ''.pdf'', MENDELEY_FOLDER_IN_REMARKABLE], True),
                       (OsRemove (doc @ ''.pdf''), True),
                       (Print (''Document added: '' @ doc), True)]) \<and>
               for_m_minus_r E mdocuments mfiles [doc] w =
                 (Inr (), w @ [(FilesIter (doc_id mdoc), True),
                       (Print (file_repr f), True),
                       (FileDownload (file_id f) ''.'', True),
                       (ShutilMove path (doc @ ''.pdf''), True),
                       (Popen [rmapi, ''put'', doc @ ''.pdf'', MENDELEY_FOLDER_IN_REMARKABLE], True),
                       (OsRemove (doc @ ''.pdf''), True),
                       (Print (''Document added: '' @ doc), True)]) \<and>
               for_m_minus_r E mdocuments mfiles (doc # docs) w =
               for_m_minus_r E mdocuments mfiles docs
                 (w @ [(FilesIter (doc_id mdoc), True),
                       (Print (file_repr f), True),
                       (FileDownload (file_id f) ''.'', True),
                       (ShutilMove path (doc @ ''.pdf''), True),
                       (Popen [rmapi, ''put'', doc @ ''.pdf'', MENDELEY_FOLDER_IN_REMARKABLE], True),
                       (OsRemove (doc @ ''.pdf''), True),
                       (Print (''Document added: '' @ doc), True)])) \<and>
         (\<exists>evs. snd (m_minus_r_body E mdocuments mfiles doc w) = w @ evs \<and>
            (\<forall>g d b. (FileDownload g d, b) \<in> set evs \<longrightarrow>
               (\<exists>f fs. fst (files_iter E (length w) (doc_id mdoc)) = f # fs \<and>
                       g = file_id f \<and> d = ''.'')) \<and>
            length (filter (\<lambda>e. case fst e of FileDownload g d \<Rightarrow> True | _ \<Rightarrow> False) evs) \<le> 1)"
proof -
  have A: "m_minus_r_body E mdocuments mfiles doc w =
                 (Inr (), w @ [(FilesIter (doc_id mdoc), True),
                       (Print (''WARNING! no files attached for document: '' @ title mdoc), True)])"
    if "files_iter E (length w) (doc_id mdoc) = ([], None)"
    using that assms
    by (simp add: m_minus_r_body_def mdoc_of_def first_file_path_def files_iter_start_def
        io_bind_def io_return_def falsy_def print_def)
  have B: "m_minus_r_body E mdocuments mfiles doc w =
     (Inr (), w @ [(FilesIter (doc_id mdoc), True),
                       (Print (file_repr f), True),
                       (FileDownload (file_id f) ''.'', True),
                       (ShutilMove path (doc @ ''.pdf''), True),
                       (Popen [rmapi, ''put'', doc @ ''.pdf'', MENDELEY_FOLDER_IN_REMARKABLE], True),
                       (OsRemove (doc @ ''.pdf''), True),
                       (Print (''Document added: '' @ doc), True)])"
    if a: "files_iter E (length w) (doc_id mdoc) = (f # fs, stop) \<and>
          file_download E (length w + 2) (file_id f) ''.'' = Inr path \<and> path \<noteq> [] \<and>
          shutil_move E (length w + 3) path (doc @ ''.pdf'') = None \<and>
          popen E (length w + 4) [rmapi, ''put'', doc @ ''.pdf'', MENDELEY_FOLDER_IN_REMARKABLE]
            = Inr (0, out, err) \<and>
          os_remove E (length w + 5) (doc @ ''.pdf'') = None"
  proof -
    have p: "first_file_path E mdoc w =
       (Inr (Some path), w @ [(FilesIter (doc_id mdoc), True), (Print (file_repr f), True),
                            (FileDownload (file_id f) ''.'', True)])"
      using a
      by (simp add: first_file_path_def files_iter_start_def io_bind_def io_return_def print_def
          download_file_def query_def eval_nat_numeral)
    show ?thesis
      using a assms p
      by (simp add: m_minus_r_body_def mdoc_of_def io_bind_def io_return_def falsy_def print_def
          move_def effect_def upload_def run_def remove_file_def eval_nat_numeral)
  qed
  have L1: "for_m_minus_r E mdocuments mfiles [doc] w = (Inr (), w1)"
    if "m_minus_r_body E mdocuments mfiles doc w = (Inr (), w1)" for w1
    using that by (simp add: io_bind_def io_return_def)
  have L2: "for_m_minus_r E mdocuments mfiles (doc # docs) w =
            for_m_minus_r E mdocuments mfiles docs w1"
    if "m_minus_r_body E mdocuments mfiles doc w = (Inr (), w1)" for w1
    using that by (simp add: io_bind_def)
  show ?thesis
  proof (intro conjI impI)
    assume h: "files_iter E (length w) (doc_id mdoc) = ([], None)"
    show "m_minus_r_body E mdocuments mfiles doc w =
                 (Inr (), w @ [(FilesIter (doc_id mdoc), True),
                       (Print (''WARNING! no files attached for document: '' @ title mdoc), True)])"
      by (rule A [OF h])
    show "for_m_minus_r E mdocuments mfiles [doc] w =
                 (Inr (), w @ [(FilesIter (doc_id mdoc), True),
                       (Print (''WARNING! no files attached for document: '' @ title mdoc), True)])"
      by (rule L1 [OF A [OF h]])
    show "for_m_minus_r E mdocuments mfiles (doc # docs) w =
               for_m_minus_r E mdocuments mfiles docs
                 (w @ [(FilesIter (doc_id mdoc), True),
                       (Print (''WARNING! no files attached for document: '' @ title mdoc), True)])"
      by (rule L2 [OF A [OF h]])
  next
    assume h: "files_iter E (length w) (doc_id mdoc) = (f # fs, stop) \<and>
          file_download E (length w + 2) (file_id f) ''.'' = Inr path \<and> path \<noteq> [] \<and>
          shutil_move E (length w + 3) path (doc @ ''.pdf'') = None \<and>
          popen E (length w + 4) [rmapi, ''put'', doc @ ''.pdf'', MENDELEY_FOLDER_IN_REMARKABLE]
            = Inr (0, out, err) \<and>
          os_remove E (length w + 5) (doc @ ''.pdf'') = None"
    show "m_minus_r_body E mdocuments mfiles doc w =
                 (Inr (), w @ [(FilesIter (doc_id mdoc), True),
                       (Print (file_repr f), True),
                       (FileDownload (file_id f) ''.'', True),
                       (ShutilMove path (doc @ ''.pdf''), True),
                       (Popen [rmapi, ''put'', doc @ ''.pdf'', MENDELEY_FOLDER_IN_REMARKABLE], True),
                       (OsRemove (doc @ ''.pdf''), True),
                       (Print (''Document added: '' @ doc), True)])"
      by (rule B [OF h])
    show "for_m_minus_r E mdocuments mfiles [doc] w =
                 (Inr (), w @ [(FilesIter (doc_id mdoc), True),
                       (Print (file_repr f), True),
                       (FileDownload (file_id f) ''.'', True),
                       (ShutilMove path (doc @ ''.pdf''), True),
                       (Popen [rmapi, ''put'', doc @ ''.pdf'', MENDELEY_FOLDER_IN_REMARKABLE], True),
                       (OsRemove (doc @ ''.pdf''), True),
                       (Print (''Document added: '' @ doc), True)])"
      by (rule L1 [OF B [OF h]])
    show "for_m_minus_r E mdocuments mfiles (doc # docs) w =
               for_m_minus_r E mdocuments mfiles docs
                 (w @ [(FilesIter (doc_id mdoc), True),
                       (Print (file_repr f), True),
                       (FileDownload (file_id f) ''.'', True),
                       (ShutilMove path (doc @ ''.pdf''), True),
                       (Popen [rmapi, ''put'', doc @ ''.pdf'', MENDELEY_FOLDER_IN_REMARKABLE], True),
                       (OsRemove (doc @ ''.pdf''), True),
                       (Print (''Document added: '' @ doc), True)])"
      by (rule L2 [OF B [OF h]])
  next
    show "\<exists>evs. snd (m_minus_r_body E mdocuments mfiles doc w) = w @ evs \<and>
            (\<forall>g d b. (FileDownload g d, b) \<in> set evs \<longrightarrow>
               (\<exists>f fs. fst (files_iter E (length w) (doc_id mdoc)) = f # fs \<and>
                       g = file_id f \<and> d = ''.'')) \<and>
            length (filter (\<lambda>e. case fst e of FileDownload g d \<Rightarrow> True | _ \<Rightarrow> False) evs) \<le> 1"
      by (rule m_minus_r_body_downloads [OF assms])
  qed
qed

theorem push_first_attachment_witness:
  "map_of (mfiles_of demo_mdocuments) ''A---1'' = Some 0 \<and>
   0 < length demo_mdocuments \<and>
   files_iter demo_no_files (length ([] :: world)) (doc_id (demo_mdocuments ! 0)) = ([], None) \<and>
   m_minus_r_body demo_no_files demo_mdocuments (mfiles_of demo_mdocuments) ''A---1'' [] =
     (Inr (), [] @ [(FilesIter (doc_id (demo_mdocuments ! 0)), True),
              (Print (''WARNING! no files attached for document: ''
                        @ title (demo_mdocuments ! 0)), True)]) \<and>
   for_m_minus_r demo_no_files demo_mdocuments (mfiles_of demo_mdocuments) [''A---1''] [] =
     (Inr (), [] @ [(FilesIter (doc_id (demo_mdocuments ! 0)), True),
              (Print (''WARNING! no files attached for document: ''
                        @ title (demo_mdocuments ! 0)), True)]) \<and>
   files_iter demo (length ([] :: world)) (doc_id (demo_mdocuments ! 0)) =
     ([\<lparr>file_id = ''x1'', file_repr = ''File x1''\<rparr>], None) \<and>
   file_download demo (length ([] :: world) + 2)
     (file_id \<lparr>file_id = ''x1'', file_repr = ''File x1''\<rparr>) ''.'' = Inr ''./x1.pdf'' \<and>
   shutil_move demo (length ([] :: world) + 3) ''./x1.pdf'' (''A---1'' @ ''.pdf'') = None \<and>
   popen demo (length ([] :: world) + 4)
     [rmapi, ''put'', ''A---1'' @ ''.pdf'', MENDELEY_FOLDER_IN_REMARKABLE] = Inr (0, [], []) \<and>
   os_remove demo (length ([] :: world) + 5) (''A---1'' @ ''.pdf'') = None \<and>
   m_minus_r_body demo demo_mdocuments (mfiles_of demo_mdocuments) ''A---1'' [] =
     (Inr (), [] @ [(FilesIter (doc_id (demo_mdocuments ! 0)), True),
              (Print (file_repr \<lparr>file_id = ''x1'', file_repr = ''File x1''\<rparr>), True),
              (FileDownload (file_id \<lparr>file_id = ''x1'', file_repr = ''File x1''\<rparr>) ''.'', True),
              (ShutilMove ''./x1.pdf'' (''A---1'' @ ''.pdf''), True),
              (Popen [rmapi, ''put'', ''A---1'' @ ''.pdf'', MENDELEY_FOLDER_IN_REMARKABLE], True),
              (OsRemove (''A---1'' @ ''.pdf''), True),
              (Print (''Document added: '' @ ''A---1''), True)]) \<and>
   for_m_minus_r demo demo_mdocuments (mfiles_of demo_mdocuments) [''A---1''] [] =
     (Inr (), [] @ [(FilesIter (doc_id (demo_mdocuments ! 0)), True),
              (Print (file_repr \<lparr>file_id = ''x1'', file_repr = ''File x1''\<rparr>), True),
              (FileDownload (file_id \<lparr>file_id = ''x1'', file_repr = ''File x1''\<rparr>) ''.'', True),
              (ShutilMove ''./x1.pdf'' (''A---1'' @ ''.pdf''), True),
              (Popen [rmapi, ''put'', ''A---1'' @ ''.pdf'', MENDELEY_FOLDER_IN_REMARKABLE], True),
              (OsRemove (''A---1'' @ ''.pdf''), True),
              (Print (''Document added: '' @ ''A---1''), True)])"
proof -
  let ?f = "\<lparr>file_id = ''x1'', file_repr = ''File x1''\<rparr>"
  have h1: "map_of (mfiles_of demo_mdocuments) ''A---1'' = Some 0" by code_simp
  have h2: "0 < length demo_mdocuments" by code_simp
  have a1: "files_iter demo_no_files (length ([] :: world)) (doc_id (demo_mdocuments ! 0))
              = ([], None)"
    by code_simp
  note t1 = push_first_attachment [OF h1 h2 refl, of demo_no_files "[]" "[]"]
  from t1 a1
  have c1: "m_minus_r_body demo_no_files demo_mdocuments (mfiles_of demo_mdocuments) ''A---1'' [] =
     (Inr (), [] @ [(FilesIter (doc_id (demo_mdocuments ! 0)), True),
              (Print (''WARNING! no files attached for document: ''
                        @ title (demo_mdocuments ! 0)), True)])"
    by blast
  from t1 a1
  have c2: "for_m_minus_r demo_no_files demo_mdocuments (mfiles_of demo_mdocuments) [''A---1''] [] =
     (Inr (), [] @ [(FilesIter (doc_id (demo_mdocuments ! 0)), True),
              (Print (''WARNING! no files attached for document: ''
                        @ title (demo_mdocuments ! 0)), True)])"
    by blast
  have b1: "files_iter demo (length ([] :: world)) (doc_id (demo_mdocuments ! 0)) = ([?f], None)"
    by code_simp
  have b2: "file_download demo (length ([] :: world) + 2) (file_id ?f) ''.'' = Inr ''./x1.pdf''"
    by code_simp
  have b3: "''./x1.pdf'' \<noteq> []" by simp
  have b4: "shutil_move demo (length ([] :: world) + 3) ''./x1.pdf'' (''A---1'' @ ''.pdf'') = None"
    by code_simp
  have b5: "popen demo (length ([] :: world) + 4)
              [rmapi, ''put'', ''A---1'' @ ''.pdf'', MENDELEY_FOLDER_IN_REMARKABLE]
            = Inr (0, [], [])"
    by code_simp
  have b6: "os_remove demo (length ([] :: world) + 5) (''A---1'' @ ''.pdf'') = None"
    by code_simp
  note t2 = push_first_attachment [OF h1 h2 refl, where E = demo and w = "[]" and docs = "[]"
      and f = ?f and fs = "[]" and stop = None and path = "''./x1.pdf''" and out = "[]"
      and err = "[]"]
  from t2 b1 b2 b3 b4 b5 b6
  have c3: "m_minus_r_body demo demo_mdocuments (mfiles_of demo_mdocuments) ''A---1'' [] =
     (Inr (), [] @ [(FilesIter (doc_id (demo_mdocuments ! 0)), True),
              (Print (file_repr ?f), True),
              (FileDownload (file_id ?f) ''.'', True),
              (ShutilMove ''./x1.pdf'' (''A---1'' @ ''.pdf''), True),
              (Popen [rmapi, ''put'', ''A---1'' @ ''.pdf'', MENDELEY_FOLDER_IN_REMARKABLE], True),
              (OsRemove (''A---1'' @ ''.pdf''), True),
              (Print (''Document added: '' @ ''A---1''), True)])"
    by blast
  from t2 b1 b2 b3 b4 b5 b6
  have c4: "for_m_minus_r demo demo_mdocuments (mfiles_of demo_mdocuments) [''A---1''] [] =
     (Inr (), [] @ [(FilesIter (doc_id (demo_mdocuments ! 0)), True),
              (Print (file_repr ?f), True),
              (FileDownload (file_id ?f) ''.'', True),
              (ShutilMove ''./x1.pdf'' (''A---1'' @ ''.pdf''), True),
              (Popen [rmapi, ''put'', ''A---1'' @ ''.pdf'', MENDELEY_FOLDER_IN_REMARKABLE], True),
              (OsRemove (''A---1'' @ ''.pdf''), True),
              (Print (''Document added: '' @ ''A---1''), True)])"
    by blast
  from h1 h2 a1 c1 c2 b1 b2 b4 b5 b6 c3 c4 show ?thesis by (intro conjI)
qed

subsection \<open>A missing folder\<close>

lemma ro_ext_refl: "ro_ext w w"
  by (simp add: ro_ext_def)

lemma ro_ext_trans: "ro_ext w w1 \<Longrightarrow> ro_ext w1 w2 \<Longrightarrow> ro_ext w w2"
  by (auto simp: ro_ext_def)

lemma ro_ext_snoc: "read_only c \<Longrightarrow> ro_ext w (w @ [(c, b)])"
  by (simp add: ro_ext_def)

lemma request_ro: "request E uri w = (r, w') \<Longrightarrow> ro_ext w w'"
  by (auto simp: request_def query_def ro_ext_def split: sum.splits)

lemma page_loop_ro:
  assumes "page_loop E item rsp acc w = Some y"
  shows "ro_ext w (snd y)"
proof (rule page_loop.raw_induct [where P = "\<lambda>E item rsp acc w y. ro_ext w (snd y)", OF _ assms],
    goal_cases)
  case (1 page_loop E item rsp acc w y)
  show ?case
  proof (cases "content rsp")
    case (Inl e)
    with 1(2) show ?thesis by (auto simp: ro_ext_refl)
  next
    case (Inr fs)
    note c = this
    show ?thesis
    proof (cases "map_exn item fs")
      case (Inl e)
      with 1(2) c show ?thesis by (auto simp: ro_ext_refl)
    next
      case (Inr xs)
      note m = this
      show ?thesis
      proof (cases "next_url rsp")
        case None
        with 1(2) c m show ?thesis by (auto simp: ro_ext_refl)
      next
        case (Some url)
        obtain r1 w1 where rq: "request E url w = (r1, w1)" by force
        from request_ro [OF rq] have e1: "ro_ext w w1" .
        show ?thesis
        proof (cases r1)
          case (Inl e)
          with 1(2) c m Some rq e1 show ?thesis by auto
        next
          case (Inr rsp')
          with 1(2) c m Some rq have "page_loop E item rsp' (acc @ xs) w1 = Some y" by simp
          from 1(1) [OF this] e1 show ?thesis by (rule ro_ext_trans [rotated])
        qed
      qed
    qed
  qed
qed

lemma get_folders_ro:
  assumes "get_folders E w = Some (r, w')"
  shows "ro_ext w w'"
proof -
  obtain r1 w1 where rq: "request E ''https://api.mendeley.com/folders?limit=500'' w = (r1, w1)"
    by force
  from request_ro [OF rq] have e1: "ro_ext w w1" .
  show ?thesis
  proof (cases r1)
    case (Inl e)
    with assms rq e1 show ?thesis by (auto simp: get_folders_def)
  next
    case (Inr rsp)
    with assms rq have "page_loop E folder_of_json rsp [] w1 = Some (r, w')"
      by (simp add: get_folders_def)
    from page_loop_ro [OF this] e1 show ?thesis by (auto intro: ro_ext_trans)
  qed
qed

lemma get_all_ro: "get_all E ids w = (r, w') \<Longrightarrow> ro_ext w w'"
proof (induction ids arbitrary: w r w')
  case Nil
  then show ?case by (simp add: io_return_def ro_ext_refl)
next
  case (Cons i ids)
  show ?case
  proof (cases "documents_get E (length w) i")
    case (Inl e)
    with Cons.prems show ?thesis
      by (auto simp: io_bind_def session_documents_get_def query_def ro_ext_snoc)
  next
    case (Inr d)
    let ?w1 = "w @ [(DocumentsGet i, True)]"
    obtain r2 w2 where g: "get_all E ids ?w1 = (r2, w2)" by force
    from Cons.IH [OF g] have "ro_ext ?w1 w2" .
    then have e: "ro_ext w w2" by (rule ro_ext_trans [OF ro_ext_snoc, rotated]) simp
    from Cons.prems Inr g have "w' = w2"
      by (auto simp: io_bind_def session_documents_get_def query_def io_return_def
          split: sum.splits)
    with e show ?thesis by simp
  qed
qed

lemma documents_ro:
  assumes "documents E self w = Some (r, w')"
  shows "ro_ext w w'"
proof -
  obtain r1 w1 where rq: "request E (''https://api.mendeley.com/folders/'' @ folder_id self
                        @ ''/documents?limit=500'') w = (r1, w1)"
    by force
  from request_ro [OF rq] have e1: "ro_ext w w1" .
  show ?thesis
  proof (cases r1)
    case (Inl e)
    with assms rq e1 show ?thesis by (auto simp: documents_def)
  next
    case (Inr rsp)
    note r = this
    show ?thesis
    proof (cases "page_loop E (\<lambda>f. json_get f ''id'') rsp [] w1")
      case None
      with assms rq r show ?thesis by (simp add: documents_def)
    next
      case (Some y)
      from page_loop_ro [OF Some] e1 have e2: "ro_ext w (snd y)" by (auto intro: ro_ext_trans)
      obtain r2 w2 where y: "y = (r2, w2)" by force
      show ?thesis
      proof (cases r2)
        case (Inl e)
        with assms rq r Some y e2 show ?thesis by (auto simp: documents_def)
      next
        case (Inr ids)
        with assms rq r Some y have "get_all E ids w2 = (r, w')" by (simp add: documents_def)
        from get_all_ro [OF this] e2 y show ?thesis by (auto intro: ro_ext_trans)
      qed
    qed
  qed
qed

lemma ls_entries_ro:
  assumes "ls_entries E p par tag w = (r, w')"
  shows "ro_ext w w'"
proof -
  have "\<And>args r1 w1. run E p (''ls'' # args) w = (r1, w1) \<Longrightarrow> ro_ext w w1"
  proof -
    fix args r1 w1
    assume "run E p (''ls'' # args) w = (r1, w1)"
    from run_cases [OF this] show "ro_ext w w1" by (auto simp: ro_ext_snoc)
  qed
  with assms show ?thesis
    by (auto simp: ls_entries_def io_bind_def io_lift_def split: if_splits prod.splits sum.splits)
qed

text \<open>
  Claim C7. When the listing of the Mendeley folders returns and holds no folder
  \<open>Remarkable\<close>, and when the listing of the top-level folders of the tablet returns and
  does not hold \<open>Mendeley\<close>, \<open>main\<close> ends with the exception of the missing folder, and every
  call of its log is a read: no attachment was deleted or attached, nothing uploaded,
  deleted, downloaded or moved.
\<close>

theorem missing_folder_aborts_before_mutation:
  assumes "session_r E 0 = None"
    and "get_folders E [(GetSession, True)] = Some (Inr folders, w1)"
  shows "(find (\<lambda>f. folder_name f = REMARKABLE_FOLDER_IN_MENDELEY) folders = None
          \<longrightarrow> (\<exists>w. main E = Some (Inl ''Cannot find remarkable folder in mendeley!'', w) \<and>
                   list_all (\<lambda>e. read_only (fst e)) w)) \<and>
         (find (\<lambda>f. folder_name f = REMARKABLE_FOLDER_IN_MENDELEY) folders = Some mfolder \<and>
          documents E mfolder w1 = Some (Inr mdocuments, w2) \<and>
          subfolders E rmapi None w2 = (Inr topfolders, w3) \<and>
          MENDELEY_FOLDER_IN_REMARKABLE \<notin> set topfolders
          \<longrightarrow> (\<exists>w. main E = Some (Inl ''Cannot find mendeley folder in remarkable!'', w) \<and>
                   list_all (\<lambda>e. read_only (fst e)) w))"
proof (intro conjI impI)
  have s: "get_session E [] = (Inr (), [(GetSession, True)])"
    using assms(1) by (simp add: get_session_def effect_def)
  have r0: "ro_ext [] [(GetSession, True)]" by (simp add: ro_ext_def)
  from get_folders_ro [OF assms(2)] r0 have r1: "ro_ext [] w1" by (auto intro: ro_ext_trans)
  {
    assume "find (\<lambda>f. folder_name f = REMARKABLE_FOLDER_IN_MENDELEY) folders = None"
    then have "\<exists>p. main E = Some (Inl ''Cannot find remarkable folder in mendeley!'',
                                    w1 @ [(Print p, True)])"
      using s assms(2) by (simp add: main_def io_bind_def print_def io_raise_def)
    then obtain p where m: "main E = Some (Inl ''Cannot find remarkable folder in mendeley!'',
                                    w1 @ [(Print p, True)])" by blast
    have "ro_ext [] (w1 @ [(Print p, True)])"
      by (rule ro_ext_trans [OF r1 ro_ext_snoc]) simp
    with m show "\<exists>w. main E = Some (Inl ''Cannot find remarkable folder in mendeley!'', w) \<and>
                   list_all (\<lambda>e. read_only (fst e)) w"
      by (auto simp: ro_ext_def)
  }
  {
    assume a: "find (\<lambda>f. folder_name f = REMARKABLE_FOLDER_IN_MENDELEY) folders = Some mfolder \<and>
          documents E mfolder w1 = Some (Inr mdocuments, w2) \<and>
          subfolders E rmapi None w2 = (Inr topfolders, w3) \<and>
          MENDELEY_FOLDER_IN_REMARKABLE \<notin> set topfolders"
    then have d: "documents E mfolder w1 = Some (Inr mdocuments, w2)"
      and sf: "subfolders E rmapi None w2 = (Inr topfolders, w3)" by simp_all
    from documents_ro [OF d] r1 have r2: "ro_ext [] w2" by (auto intro: ro_ext_trans)
    from sf have "ls_entries E rmapi None ''[d]'' w2 = (Inr topfolders, w3)"
      by (simp add: subfolders_def)
    from ls_entries_ro [OF this] r2 have r3: "ro_ext [] w3" by (auto intro: ro_ext_trans)
    have "\<exists>p q. main_tablet E mdocuments w2 =
             (Inl ''Cannot find mendeley folder in remarkable!'',
              w3 @ [(Print p, True), (Print q, True)])"
      using a by (simp add: main_tablet_def io_bind_def print_def io_raise_def)
    then obtain p q where t: "main_tablet E mdocuments w2 =
             (Inl ''Cannot find mendeley folder in remarkable!'',
              w3 @ [(Print p, True), (Print q, True)])" by blast
    have m: "main E = Some (Inl ''Cannot find mendeley folder in remarkable!'',
              w3 @ [(Print p, True), (Print q, True)])"
      using s assms(2) a t by (simp add: main_def)
    have "ro_ext w3 (w3 @ [(Print p, True), (Print q, True)])" by (simp add: ro_ext_def)
    with r3 have "ro_ext [] (w3 @ [(Print p, True), (Print q, True)])" by (rule ro_ext_trans)
    with m show "\<exists>w. main E = Some (Inl ''Cannot find mendeley folder in remarkable!'', w) \<and>
                   list_all (\<lambda>e. read_only (fst e)) w"
      by (auto simp: ro_ext_def)
  }
qed

theorem missing_folder_aborts_before_mutation_witness:
  "session_r demo_no_folder 0 = None \<and>
   get_folders demo_no_folder [(GetSession, True)] =
     Some (Inr [\<lparr>folder_id = ''f0'', folder_name = ''Inbox'', parent = None\<rparr>],
           [(GetSession, True), (HttpGet ''https://api.mendeley.com/folders?limit=500'', True)]) \<and>
   find (\<lambda>f. folder_name f = REMARKABLE_FOLDER_IN_MENDELEY)
     [\<lparr>folder_id = ''f0'', folder_name = ''Inbox'', parent = None\<rparr>] = None \<and>
   (\<exists>w. main demo_no_folder = Some (Inl ''Cannot find remarkable folder in mendeley!'', w) \<and>
        list_all (\<lambda>e. read_only (fst e)) w) \<and>
   session_r demo_no_tablet_folder 0 = None \<and>
   get_folders demo_no_tablet_folder [(GetSession, True)] =
     Some (Inr [\<lparr>folder_id = ''f0'', folder_name = ''Inbox'', parent = None\<rparr>,
                \<lparr>folder_id = ''f1'', folder_name = ''Remarkable'', parent = Some ''f0''\<rparr>],
           [(GetSession, True), (HttpGet ''https://api.mendeley.com/folders?limit=500'', True)]) \<and>
   find (\<lambda>f. folder_name f = REMARKABLE_FOLDER_IN_MENDELEY)
     [\<lparr>folder_id = ''f0'', folder_name = ''Inbox'', parent = None\<rparr>,
      \<lparr>folder_id = ''f1'', folder_name = ''Remarkable'', parent = Some ''f0''\<rparr>]
     = Some \<lparr>folder_id = ''f1'', folder_name = ''Remarkable'', parent = Some ''f0''\<rparr> \<and>
   documents demo_no_tablet_folder
       \<lparr>folder_id = ''f1'', folder_name = ''Remarkable'', parent = Some ''f0''\<rparr>
       [(GetSession, True), (HttpGet ''https://api.mendeley.com/folders?limit=500'', True)] =
     Some (Inr demo_mdocuments,
           [(GetSession, True), (HttpGet ''https://api.mendeley.com/folders?limit=500'', True),
            (HttpGet ''https://api.mendeley.com/folders/f1/documents?limit=500'', True),
            (HttpGet ''page2'', True), (DocumentsGet ''1'', True), (DocumentsGet ''2'', True)]) \<and>
   subfolders demo_no_tablet_folder rmapi None
       [(GetSession, True), (HttpGet ''https://api.mendeley.com/folders?limit=500'', True),
        (HttpGet ''https://api.mendeley.com/folders/f1/documents?limit=500'', True),
        (HttpGet ''page2'', True), (DocumentsGet ''1'', True), (DocumentsGet ''2'', True)] =
     (Inr [''Books''],
      [(GetSession, True), (HttpGet ''https://api.mendeley.com/folders?limit=500'', True),
       (HttpGet ''https://api.mendeley.com/folders/f1/documents?limit=500'', True),
       (HttpGet ''page2'', True), (DocumentsGet ''1'', True), (DocumentsGet ''2'', True),
       (Popen [''./rmapi'', ''ls''], True)]) \<and>
   MENDELEY_FOLDER_IN_REMARKABLE \<notin> set [''Books''] \<and>
   (\<exists>w. main demo_no_tablet_folder =
          Some (Inl ''Cannot find mendeley folder in remarkable!'', w) \<and>
        list_all (\<lambda>e. read_only (fst e)) w)"
proof -
  let ?inbox = "\<lparr>folder_id = ''f0'', folder_name = ''Inbox'', parent = None\<rparr>"
  let ?rem = "\<lparr>folder_id = ''f1'', folder_name = ''Remarkable'', parent = Some ''f0''\<rparr>"
  let ?w1 = "[(GetSession, True), (HttpGet ''https://api.mendeley.com/folders?limit=500'', True)]"
  let ?w2 = "[(GetSession, True), (HttpGet ''https://api.mendeley.com/folders?limit=500'', True),
            (HttpGet ''https://api.mendeley.com/folders/f1/documents?limit=500'', True),
            (HttpGet ''page2'', True), (DocumentsGet ''1'', True), (DocumentsGet ''2'', True)]"
  let ?w3 = "[(GetSession, True), (HttpGet ''https://api.mendeley.com/folders?limit=500'', True),
       (HttpGet ''https://api.mendeley.com/folders/f1/documents?limit=500'', True),
       (HttpGet ''page2'', True), (DocumentsGet ''1'', True), (DocumentsGet ''2'', True),
       (Popen [''./rmapi'', ''ls''], True)]"
  have h1: "session_r demo_no_folder 0 = None" by code_simp
  have h2: "get_folders demo_no_folder [(GetSession, True)] = Some (Inr [?inbox], ?w1)"
    by code_simp
  have a1: "find (\<lambda>f. folder_name f = REMARKABLE_FOLDER_IN_MENDELEY) [?inbox] = None"
    by code_simp
  from missing_folder_aborts_before_mutation [OF h1 h2] a1
  have c1: "\<exists>w. main demo_no_folder = Some (Inl ''Cannot find remarkable folder in mendeley!'', w) \<and>
        list_all (\<lambda>e. read_only (fst e)) w"
    by blast
  have g1: "session_r demo_no_tablet_folder 0 = None" by code_simp
  have g2: "get_folders demo_no_tablet_folder [(GetSession, True)] = Some (Inr [?inbox, ?rem], ?w1)"
    by code_simp
  have b1: "find (\<lambda>f. folder_name f = REMARKABLE_FOLDER_IN_MENDELEY) [?inbox, ?rem] = Some ?rem"
    by code_simp
  have b2: "documents demo_no_tablet_folder ?rem ?w1 = Some (Inr demo_mdocuments, ?w2)"
    by code_simp
  have b3: "subfolders demo_no_tablet_folder rmapi None ?w2 = (Inr [''Books''], ?w3)"
    by code_simp
  have b4: "MENDELEY_FOLDER_IN_REMARKABLE \<notin> set [''Books'']" by code_simp
  from missing_folder_aborts_before_mutation [OF g1 g2, where mfolder = ?rem
      and mdocuments = demo_mdocuments and ?w2.0 = ?w2 and topfolders = "[''Books'']"
      and ?w3.0 = ?w3] b1 b2 b3 b4
  have c2: "\<exists>w. main demo_no_tablet_folder =
          Some (Inl ''Cannot find mendeley folder in remarkable!'', w) \<and>
        list_all (\<lambda>e. read_only (fst e)) w"
    by blast
  from h1 h2 a1 c1 g1 g2 b1 b2 b3 b4 c2 show ?thesis by (intro conjI)
qed

end
